(* ===== verification/Prelude.thy ===== *)
theory Prelude
  imports Main
begin

text \<open>
  Shared vocabulary of the development: the run-time errors of the Rust program
  (a panic is a value \<open>Inl e\<close> of type \<open>rust_error + 'a\<close>), bounds-checked Rust
  indexing on vectors and fixed arrays, and the parts of Rust's \<open>char\<close> and \<open>str\<close>
  API that \<open>src/src/main.rs\<close> calls (\<open>to_lowercase\<close>, \<open>to_uppercase\<close>, \<open>trim\<close>,
  \<open>char::is_whitespace\<close>).

  Characters are HOL's \<open>char\<close>, read as the Unicode scalar values U+0000 to U+00FF
  (ASCII and Latin-1).  Case mapping is Rust's on that range; the two Latin-1 letters
  whose upper case lies outside it (U+00B5 and U+00FF) are left unchanged, and
  U+00DF (whose upper case is the two characters SS) maps to its first character S,
  which is what \<open>to_uppercase().collect::<Vec<char>>()[0]\<close> keeps.
\<close>

named_theorems rust_simps "characteristic equations of the modelled Rust library calls"

section \<open>Errors and checked indexing\<close>

datatype rust_error =
    IndexOutOfBounds   \<comment> \<open>panic of \<open>v[i]\<close> with \<open>i \<ge> v.len()\<close>\<close>
  | EmptyRange         \<comment> \<open>panic of \<open>gen_range(0..0)\<close>\<close>
  | FileUnreadable     \<comment> \<open>panic of \<open>read_to_string(..).unwrap()\<close>\<close>

type_synonym 'a result = "rust_error + 'a"

definition bind_res :: "'a result \<Rightarrow> ('a \<Rightarrow> 'b result) \<Rightarrow> 'b result" where
  "bind_res r f = (case r of Inl e \<Rightarrow> Inl e | Inr x \<Rightarrow> f x)"

lemma bind_res_simps [simp]:
  "bind_res (Inl e) f = Inl e"
  "bind_res (Inr x) f = f x"
  by (simp_all add: bind_res_def)

lemma bind_res_Inr_iff:
  "bind_res r f = Inr y \<longleftrightarrow> (\<exists>x. r = Inr x \<and> f x = Inr y)"
  by (cases r) auto

text \<open>\<open>v[i]\<close> for a read, and \<open>v[i][j]\<close> for a read or a write into a nested array.\<close>

definition nth_checked :: "'a list \<Rightarrow> nat \<Rightarrow> 'a result" where
  "nth_checked xs i = (if i < length xs then Inr (xs ! i) else Inl IndexOutOfBounds)"

definition nth2_checked :: "'a list list \<Rightarrow> nat \<Rightarrow> nat \<Rightarrow> 'a result" where
  "nth2_checked b i j = bind_res (nth_checked b i) (\<lambda>row. nth_checked row j)"

definition update2_checked :: "'a list list \<Rightarrow> nat \<Rightarrow> nat \<Rightarrow> ('a \<Rightarrow> 'a) \<Rightarrow> 'a list list result" where
  "update2_checked b i j f =
     (if i < length b \<and> j < length (b ! i) then Inr (b[i := (b ! i)[j := f (b ! i ! j)]])
      else Inl IndexOutOfBounds)"

lemma nth_checked_in [simp, rust_simps]: "i < length xs \<Longrightarrow> nth_checked xs i = Inr (xs ! i)"
  by (simp add: nth_checked_def)

lemma nth_checked_out [simp, rust_simps]: "length xs \<le> i \<Longrightarrow> nth_checked xs i = Inl IndexOutOfBounds"
  by (simp add: nth_checked_def)

lemma nth2_checked_in [simp, rust_simps]:
  "i < length b \<Longrightarrow> j < length (b ! i) \<Longrightarrow> nth2_checked b i j = Inr (b ! i ! j)"
  by (simp add: nth2_checked_def)

lemma update2_checked_in [simp, rust_simps]:
  "i < length b \<Longrightarrow> j < length (b ! i) \<Longrightarrow>
   update2_checked b i j f = Inr (b[i := (b ! i)[j := f (b ! i ! j)]])"
  by (simp add: update2_checked_def)

text \<open>Shape of a rectangular grid, and the facts that a cell update keeps it.\<close>

definition grid :: "nat \<Rightarrow> nat \<Rightarrow> 'a list list \<Rightarrow> bool" where
  "grid m n b \<longleftrightarrow> length b = m \<and> (\<forall>row \<in> set b. length row = n)"

lemma grid_nth_length [simp]: "grid m n b \<Longrightarrow> i < m \<Longrightarrow> length (b ! i) = n"
  by (simp add: grid_def)

lemma grid_length [simp]: "grid m n b \<Longrightarrow> length b = m"
  by (simp add: grid_def)

lemma grid_update_row:
  "grid m n b \<Longrightarrow> length x = n \<Longrightarrow> grid m n (b[i := x])"
  unfolding grid_def by (metis length_list_update set_update_subset_insert insertE subsetD)

lemma grid_update_cell [simp]:
  "grid m n b \<Longrightarrow> i < m \<Longrightarrow> grid m n (b[i := (b ! i)[j := x]])"
  by (simp add: grid_update_row)

lemma grid_replicate [simp]: "grid m n (replicate m (replicate n x))"
  by (simp add: grid_def)

section \<open>Rust characters and strings\<close>

definition is_whitespace :: "char \<Rightarrow> bool" where
  \<comment> \<open>\<open>char::is_whitespace\<close> (Unicode White_Space) restricted to U+0000..U+00FF\<close>
  "is_whitespace c \<longleftrightarrow>
     (let n = of_char c :: nat in (9 \<le> n \<and> n \<le> 13) \<or> n = 32 \<or> n = 133 \<or> n = 160)"

definition is_upper_range :: "char \<Rightarrow> bool" where
  \<comment> \<open>letters whose \<open>to_lowercase\<close> is the code point plus 32\<close>
  "is_upper_range c \<longleftrightarrow>
     (let n = of_char c :: nat in (65 \<le> n \<and> n \<le> 90) \<or> (192 \<le> n \<and> n \<le> 222 \<and> n \<noteq> 215))"

definition is_lower_range :: "char \<Rightarrow> bool" where
  \<comment> \<open>letters whose \<open>to_uppercase\<close> is the code point minus 32\<close>
  "is_lower_range c \<longleftrightarrow>
     (let n = of_char c :: nat in (97 \<le> n \<and> n \<le> 122) \<or> (224 \<le> n \<and> n \<le> 254 \<and> n \<noteq> 247))"

definition to_lower_char :: "char \<Rightarrow> char" where
  \<comment> \<open>\<open>c.to_lowercase()\<close>; on U+0000..U+00FF it is always a single character\<close>
  "to_lower_char c = (if is_upper_range c then char_of (of_char c + 32 :: nat) else c)"

definition to_upper_first :: "char \<Rightarrow> char" where
  \<comment> \<open>\<open>c.to_uppercase().collect::<Vec<char>>()[0]\<close>\<close>
  "to_upper_first c =
     (if is_lower_range c then char_of (of_char c - 32 :: nat)
      else if c = CHR 0xDF then CHR ''S'' else c)"

definition str_to_lowercase :: "string \<Rightarrow> string" where
  \<comment> \<open>\<open>String::to_lowercase\<close>, character by character\<close>
  "str_to_lowercase s = map to_lower_char s"

definition trim :: "string \<Rightarrow> string" where
  \<comment> \<open>\<open>str::trim\<close>: drop leading and trailing whitespace\<close>
  "trim s = rev (dropWhile is_whitespace (rev (dropWhile is_whitespace s)))"

lemma str_to_lowercase_simps [simp, rust_simps]:
  "str_to_lowercase [] = []"
  "str_to_lowercase (c # s) = to_lower_char c # str_to_lowercase s"
  "str_to_lowercase (s @ t) = str_to_lowercase s @ str_to_lowercase t"
  by (simp_all add: str_to_lowercase_def)

text \<open>Evaluation of \<open>char_of\<close> on a numeral, so that \<open>simp\<close> computes case mappings.\<close>

lemma char_of_nat_bits [rust_simps]:
  "char_of (n :: nat) = Char (odd n) (odd (n div 2)) (odd (n div 4)) (odd (n div 8))
     (odd (n div 16)) (odd (n div 32)) (odd (n div 64)) (odd (n div 128))"
  by (simp add: char_of_def bit_iff_odd)

lemma of_char_char_of_small [simp]: "n < 256 \<Longrightarrow> of_char (char_of (n :: nat)) = n"
  by simp

lemma length_str_to_lowercase [simp]: "length (str_to_lowercase s) = length s"
  by (simp add: str_to_lowercase_def)

end
