(* ===== verification/Board.thy ===== *)
theory Board
  imports Prelude
begin

text \<open>
  The data of \<open>src/src/main.rs\<close>: the cell status and game status enums, the
  \<open>Character\<close> cell struct and the \<open>App\<close> struct, and the blank 6 by 5 board that
  \<open>App::default\<close> builds.  The fixed array \<open>[[Character; 5]; 6]\<close> is a list of rows;
  its shape is the predicate \<open>grid 6 5\<close>, kept by every operation (theory \<open>Game\<close>).
  \<open>position: [usize; 2]\<close> is the pair (row, column).
  Both structs have a field named \<open>status\<close>; they are written \<open>character.status\<close>
  and \<open>app.status\<close> in this development.
\<close>

datatype character_status = NotGuessed | Correct | SomewhereElse | Incorrect

datatype gamestatus = Ongoing | Won | Lost

record character =
  character :: char
  status :: character_status

record app =
  characters :: "character list list"
  position :: "nat \<times> nat"
  status :: gamestatus
  word :: string
  message :: string

definition blank_character :: character where
  "blank_character = \<lparr>character = CHR '' '', character.status = NotGuessed\<rparr>"

definition default_characters :: "character list list" where
  "default_characters = replicate 6 (replicate 5 blank_character)"

text \<open>The text of a row: \<open>row.iter().map(|f| f.character.to_string()).collect::<String>()\<close>.\<close>

definition row_string :: "character list \<Rightarrow> string" where
  "row_string cells = map character cells"

abbreviation cur_row :: "app \<Rightarrow> nat" where
  "cur_row a \<equiv> fst (position a)"

abbreviation cur_col :: "app \<Rightarrow> nat" where
  "cur_col a \<equiv> snd (position a)"

lemma blank_character_simps [simp]:
  "character blank_character = CHR '' ''"
  "character.status blank_character = NotGuessed"
  by (simp_all add: blank_character_def)

lemma grid_default_characters [simp]: "grid 6 5 default_characters"
  by (simp add: default_characters_def)

lemma length_row_string [simp]: "length (row_string cells) = length cells"
  by (simp add: row_string_def)

lemma row_string_update_status [simp]:
  "row_string (cells[j := c\<lparr>character.status := s\<rparr>]) = (row_string cells)[j := character c]"
  by (simp add: row_string_def map_update)

lemma row_string_update_char [simp]:
  "row_string (cells[j := c\<lparr>character := ch\<rparr>]) = (row_string cells)[j := ch]"
  by (simp add: row_string_def map_update)

end
