(* ===== verification/Compare.thy ===== *)
theory Compare
  imports Board
begin

text \<open>
  The per-letter comparison \<open>fn value(character, word, comparison)\<close> of
  \<open>src/src/main.rs\<close> (lines 148--156), the statuses it gives a whole guessed row
  (\<open>eval_guess\<close>, the result of the loop at lines 123--129, see theory \<open>Game\<close>), and the
  case-insensitive comparison the specification describes (section 4.3), against which
  the code is compared.  The code lower-cases the guessed letter for the positional
  test, but tests membership with the letter as typed (upper case), case-sensitively.
\<close>

definition value_status :: "char \<Rightarrow> string \<Rightarrow> char \<Rightarrow> character_status" where
  "value_status c w comparison =
     (if comparison = to_lower_char c then Correct
      else if c \<in> set w then SomewhereElse
      else Incorrect)"

text \<open>The statuses of a guessed row \<open>g\<close> against secret \<open>w\<close>, column by column.\<close>

definition eval_guess :: "string \<Rightarrow> string \<Rightarrow> character_status list" where
  "eval_guess w g = map (\<lambda>i. value_status (g ! i) w (w ! i)) [0..<5]"

text \<open>The comparison of the specification: case-insensitive on both tests.\<close>

definition spec_value :: "char \<Rightarrow> string \<Rightarrow> nat \<Rightarrow> character_status" where
  "spec_value g s i =
     (if to_lower_char g = to_lower_char (s ! i) then Correct
      else if to_lower_char g \<in> set (str_to_lowercase s) then SomewhereElse
      else Incorrect)"

definition spec_eval_guess :: "string \<Rightarrow> string \<Rightarrow> character_status list" where
  "spec_eval_guess s g = map (\<lambda>i. spec_value (g ! i) s i) [0..<5]"

definition is_letter :: "char \<Rightarrow> bool" where
  "is_letter c \<longleftrightarrow> is_upper_range c \<or> is_lower_range c"

section \<open>Case mapping facts\<close>

lemma of_char_bound: "of_char c < (256 :: nat)"
  by (rule nat_of_char_less_256)

lemma to_upper_first_letter: "is_letter c \<Longrightarrow> is_upper_range (to_upper_first c)"
proof -
  assume "is_letter c"
  then show ?thesis
    using of_char_bound [of c]
    by (auto simp: is_letter_def to_upper_first_def is_upper_range_def is_lower_range_def Let_def)
qed

lemma to_lower_char_not_upper: "\<not> is_upper_range (to_lower_char c)"
  using of_char_bound [of c]
  by (auto simp: to_lower_char_def is_upper_range_def Let_def)

lemma to_lower_char_fixed: "\<not> is_upper_range c \<Longrightarrow> to_lower_char c = c"
  by (simp add: to_lower_char_def)

lemmas case_map_facts = to_upper_first_letter to_lower_char_not_upper to_lower_char_fixed


section \<open>Properties of the comparison\<close>

text \<open>C25: a typed letter is stored upper-cased, but \<open>word.contains(character)\<close> is
  case-sensitive: against a secret with no upper-case letter (the usual lower-case
  word list) a typed letter is never marked SomewhereElse.\<close>

theorem typed_letter_never_present:
  assumes "is_letter c" and "\<forall>x \<in> set w. \<not> is_upper_range x"
  shows "value_status (to_upper_first c) w k \<noteq> SomewhereElse"
proof -
  have "is_upper_range (to_upper_first c)" using assms(1) by (rule to_upper_first_letter)
  with assms(2) have "to_upper_first c \<notin> set w" by blast
  then show ?thesis by (simp add: value_status_def)
qed

theorem typed_letter_never_present_witness:
  "is_letter CHR ''c'' \<and> value_status (to_upper_first CHR ''c'') ''crane'' CHR ''n'' \<noteq> SomewhereElse"
proof -
  have h: "is_letter CHR ''c''" "\<forall>x \<in> set ''crane''. \<not> is_upper_range x"
    by (simp_all add: is_letter_def is_upper_range_def is_lower_range_def)
  show ?thesis using h typed_letter_never_present [OF h, of "CHR ''n''"] by simp
qed

text \<open>C26: the positional test compares the secret's character as it is with the
  lower-cased guess: an upper-case character of the secret is never matched, so a
  secret written in upper case never yields Correct at that position.\<close>

theorem uppercase_secret_never_correct:
  assumes "is_upper_range comparison"
  shows "value_status c w comparison \<noteq> Correct"
  using assms to_lower_char_not_upper [of c] by (auto simp: value_status_def)

theorem uppercase_secret_never_correct_witness:
  "is_upper_range CHR ''C'' \<and> value_status CHR ''C'' ''CRANE'' CHR ''C'' \<noteq> Correct"
proof -
  have h: "is_upper_range CHR ''C''" by (simp add: is_upper_range_def)
  show ?thesis using h uppercase_secret_never_correct [OF h, of "CHR ''C''" "''CRANE''"] by simp
qed

text \<open>C27: where the secret's character is not an upper-case letter, the positional test
  of the code agrees with the specification's case-insensitive one.\<close>

theorem value_status_correct_iff_spec:
  assumes "i < length w" and "\<not> is_upper_range (w ! i)"
  shows "value_status c w (w ! i) = Correct \<longleftrightarrow> spec_value c w i = Correct"
  using assms by (auto simp: value_status_def spec_value_def to_lower_char_fixed)

theorem value_status_correct_iff_spec_witness:
  "value_status CHR ''R'' ''crane'' (''crane'' ! 1) = Correct \<and> spec_value CHR ''R'' ''crane'' 1 = Correct"
proof -
  have h: "1 < length ''crane''" "\<not> is_upper_range (''crane'' ! 1)"
    by (simp_all add: is_upper_range_def)
  have "spec_value CHR ''R'' ''crane'' 1 = Correct"
    by (simp add: spec_value_def to_lower_char_def is_upper_range_def char_of_nat_bits)
  with value_status_correct_iff_spec [OF h, of "CHR ''R''"] show ?thesis by simp
qed

end
