(* ===== verification/Words.thy ===== *)
theory Words
  imports Prelude
begin

text \<open>
  The word pool: the block of \<open>App::default\<close> (\<open>src/src/main.rs\<close>, lines 33--40) that
  reads \<open>words.txt\<close>, splits it at every \<open>"\n"\<close>, trims each piece and indexes the
  resulting vector with \<open>rand::thread_rng().gen_range(0..words.len())\<close>.
  The file is a \<open>string option\<close> (\<open>None\<close>: \<open>read_to_string\<close> failed, and
  \<open>unwrap\<close> panics).  The random draw is an arbitrary \<open>nat\<close> reduced into the index
  range, so every index of the pool is a possible outcome (\<open>select_word_every\<close>).
  A newline-joined list of trimmed words is read back exactly (round trip), but
  \<open>str::split\<close> never yields an empty vector, so the empty-pool error the
  specification asks for cannot arise: an empty file gives the single secret \<open>''''\<close>,
  and a trailing newline adds \<open>''''\<close> to the pool.
\<close>

abbreviation newline :: char where
  "newline \<equiv> CHR ''\<newline>''"

text \<open>\<open>str::split("\n")\<close>: the accumulator holds the current piece, reversed.\<close>

fun split_acc :: "string \<Rightarrow> string \<Rightarrow> string list" where
  "split_acc cur [] = [rev cur]"
| "split_acc cur (c # cs) =
     (if c = newline then rev cur # split_acc [] cs else split_acc (c # cur) cs)"

definition split_newline :: "string \<Rightarrow> string list" where
  "split_newline s = split_acc [] s"

definition words_of_file :: "string \<Rightarrow> string list" where
  \<comment> \<open>\<open>.split("\n").map(|f| f.trim().to_string()).collect::<Vec<String>>()\<close>\<close>
  "words_of_file s = map trim (split_newline s)"

definition select_word :: "string list \<Rightarrow> nat \<Rightarrow> string result" where
  \<comment> \<open>\<open>words[rand::thread_rng().gen_range(0..words.len())].clone()\<close>\<close>
  "select_word ws r = (if ws = [] then Inl EmptyRange else Inr (ws ! (r mod length ws)))"

definition read_secret :: "string option \<Rightarrow> nat \<Rightarrow> string result" where
  \<comment> \<open>\<open>std::fs::read_to_string("words.txt").unwrap()\<close>, then the selection\<close>
  "read_secret file r =
     (case file of None \<Rightarrow> Inl FileUnreadable | Some s \<Rightarrow> select_word (words_of_file s) r)"

text \<open>The file format of the specification: words separated by single newlines.\<close>

fun join_newline :: "string list \<Rightarrow> string" where
  "join_newline [] = []"
| "join_newline [w] = w"
| "join_newline (w # ws) = w @ newline # join_newline ws"

section \<open>Splitting\<close>

lemma split_acc_nonempty [simp]: "split_acc cur s \<noteq> []"
  by (induction cur s rule: split_acc.induct) auto

lemma split_acc_no_newline: "newline \<notin> set s \<Longrightarrow> split_acc cur s = [rev cur @ s]"
  by (induction s arbitrary: cur) auto

lemma split_acc_piece:
  "newline \<notin> set s \<Longrightarrow> split_acc cur (s @ newline # t) = (rev cur @ s) # split_acc [] t"
  by (induction s arbitrary: cur) auto

lemma split_newline_join:
  "ws \<noteq> [] \<Longrightarrow> \<forall>w \<in> set ws. newline \<notin> set w \<Longrightarrow> split_newline (join_newline ws) = ws"
proof (induction ws rule: join_newline.induct)
  case (2 w)
  then show ?case by (simp add: split_newline_def split_acc_no_newline)
next
  case (3 w v vs)
  then show ?case by (simp add: split_newline_def split_acc_piece)
qed simp

lemma join_newline_snoc_empty:
  "ws \<noteq> [] \<Longrightarrow> join_newline (ws @ [[]]) = join_newline ws @ [newline]"
  by (induction ws rule: join_newline.induct) auto

lemma words_of_file_ne [simp]: "words_of_file s \<noteq> []"
  by (simp add: words_of_file_def split_newline_def)

lemma read_secret_Some [simp]:
  "read_secret (Some s) r = Inr (words_of_file s ! (r mod length (words_of_file s)))"
  by (simp add: read_secret_def select_word_def)

lemma read_secret_None [simp]: "read_secret None r = Inl FileUnreadable"
  by (simp add: read_secret_def)

lemma select_word_in_pool: "select_word ws r = Inr w \<Longrightarrow> w \<in> set ws"
  by (auto simp: select_word_def split: if_splits)

lemma select_word_every: "i < length ws \<Longrightarrow> select_word ws i = Inr (ws ! i)"
  by (auto simp: select_word_def)

lemma select_word_nonempty: "ws \<noteq> [] \<Longrightarrow> \<exists>w. select_word ws r = Inr w"
  by (simp add: select_word_def)


section \<open>Properties of the word pool\<close>

text \<open>C30: \<open>str::split\<close> always yields at least one piece, so drawing a secret never meets
  the empty range: the empty-pool error of the specification cannot occur, and reading
  fails only when the file is unreadable.\<close>

theorem read_secret_never_empty_range:
  "read_secret file r \<noteq> Inl EmptyRange"
  by (cases "file") simp_all

text \<open>C31: round trip of the file format: a non-empty list of words, none containing a
  newline or surrounding whitespace, written one per line without a final newline, is
  read back as exactly that pool.\<close>

theorem words_of_file_roundtrip:
  assumes "ws \<noteq> []" and "\<forall>w \<in> set ws. newline \<notin> set w \<and> trim w = w"
  shows "words_of_file (join_newline ws) = ws"
proof -
  have "split_newline (join_newline ws) = ws"
    using assms by (intro split_newline_join) auto
  moreover have "map trim ws = ws" using assms(2) by (induction ws) auto
  ultimately show ?thesis by (simp add: words_of_file_def)
qed

theorem words_of_file_roundtrip_witness:
  "words_of_file (join_newline [''crane'', ''trace'']) = [''crane'', ''trace'']"
proof -
  have h: "[''crane'', ''trace''] \<noteq> []"
    "\<forall>w \<in> set [''crane'', ''trace'']. newline \<notin> set w \<and> trim w = w"
    by (simp_all add: trim_def is_whitespace_def)
  show ?thesis by (rule words_of_file_roundtrip [OF h])
qed

text \<open>C32: the same file with a final newline, as editors write it, gains an empty
  word: the pool then contains the empty secret.\<close>

theorem trailing_newline_empty_word:
  assumes "ws \<noteq> []" and "\<forall>w \<in> set ws. newline \<notin> set w \<and> trim w = w"
  shows "words_of_file (join_newline ws @ [newline]) = ws @ [[]]"
proof -
  have "join_newline ws @ [newline] = join_newline (ws @ [[]])"
    using assms(1) by (simp add: join_newline_snoc_empty)
  moreover have "split_newline (join_newline (ws @ [[]])) = ws @ [[]]"
    using assms by (intro split_newline_join) auto
  moreover have "map trim ws = ws" using assms(2) by (induction ws) auto
  ultimately show ?thesis by (simp add: words_of_file_def trim_def)
qed

theorem trailing_newline_empty_word_witness:
  "words_of_file (join_newline [''crane''] @ [newline]) = [''crane'', []]"
proof -
  have h: "[''crane''] \<noteq> []" "\<forall>w \<in> set [''crane'']. newline \<notin> set w \<and> trim w = w"
    by (simp_all add: trim_def is_whitespace_def)
  show ?thesis using trailing_newline_empty_word [OF h] by simp
qed

end
