(* ===== verification/Game.thy ===== *)
theory Game
  imports Board Compare Words
begin

text \<open>
  The game session of \<open>src/src/main.rs\<close>: \<open>App::default\<close> (lines 24--44), the key
  handler inside the loop of \<open>run_app\<close> (lines 89--145), one definition per arm of its
  \<open>match\<close>, and the loop itself over a finite sequence of inputs.  Every indexing of
  the source is bounds-checked as in Rust, so a panic is a value \<open>Inl e\<close>.
  The loop reads the file again on every restart; a restart consumes one random draw.
  A run is a list of inputs: a terminal event, or the failure of \<open>terminal.draw\<close> or
  \<open>event::read\<close> (the \<open>?\<close> that returns \<open>Err\<close>); when the list is used up the loop is
  still waiting for the next event (\<open>Blocked\<close>).  The draw for the \<open>k\<close>-th input is the
  value at \<open>k\<close> of a sequence \<open>nat \<Rightarrow> nat\<close>; it is only used when that input restarts the game.
\<close>

datatype keycode = Esc | Backspace | Enter | Char_key char | OtherKey

datatype event = Key keycode | NonKey

datatype 'a flow = Continue 'a | Exit

datatype io_input = Ev event | IoFail

datatype run_result = Returned app | IoErr app | Blocked app | Panicked rust_error

definition fresh_app :: "string \<Rightarrow> app" where
  \<comment> \<open>the struct literal of \<open>App::default\<close>, once the secret is drawn\<close>
  "fresh_app w =
     \<lparr>characters = default_characters, position = (0, 0), status = Ongoing,
      word = w, message = []\<rparr>"

definition app_default :: "string option \<Rightarrow> nat \<Rightarrow> app result" where
  "app_default file r = bind_res (read_secret file r) (\<lambda>w. Inr (fresh_app w))"

definition continue_with :: "app result \<Rightarrow> app flow result" where
  "continue_with r = bind_res r (\<lambda>a. Inr (Continue a))"

definition key_backspace :: "app \<Rightarrow> app result" where
  "key_backspace a =
     (if 1 \<le> cur_col a then
        bind_res (update2_checked (characters a) (cur_row a) (cur_col a - 1)
                    (\<lambda>x. x\<lparr>character := CHR '' ''\<rparr>)) (\<lambda>b.
        Inr (a\<lparr>characters := b, position := (cur_row a, cur_col a - 1)\<rparr>))
      else Inr a)"

text \<open>The loop \<open>for i in 0..5\<close> that colours the submitted row.\<close>

fun commit_row :: "string \<Rightarrow> nat \<Rightarrow> nat list \<Rightarrow> character list list \<Rightarrow> character list list result" where
  "commit_row w r [] b = Inr b"
| "commit_row w r (i # ixs) b =
     bind_res (nth2_checked b r i) (\<lambda>cell.
     bind_res (nth_checked w i) (\<lambda>cmp.
     bind_res (update2_checked b r i
                 (\<lambda>x. x\<lparr>character.status := value_status (character cell) w cmp\<rparr>))
       (commit_row w r ixs)))"

definition key_enter :: "app \<Rightarrow> app result" where
  "key_enter a =
     (if 5 \<le> cur_col a then
        bind_res (nth_checked (characters a) (cur_row a)) (\<lambda>cells.
          if str_to_lowercase (row_string cells) = str_to_lowercase (word a)
          then Inr (a\<lparr>message := ''jeromes'', status := Won\<rparr>)
          else if 5 \<le> cur_row a then Inr (a\<lparr>status := Lost\<rparr>)
          else bind_res (commit_row (word a) (cur_row a) [0..<5] (characters a)) (\<lambda>b.
                 Inr (a\<lparr>characters := b, position := (Suc (cur_row a), 0)\<rparr>)))
      else Inr a)"

definition key_char :: "char \<Rightarrow> app \<Rightarrow> app result" where
  "key_char c a =
     (if cur_col a < 5 then
        bind_res (update2_checked (characters a) (cur_row a) (cur_col a)
                    (\<lambda>x. x\<lparr>character := to_upper_first c\<rparr>)) (\<lambda>b.
        Inr (a\<lparr>characters := b, position := (cur_row a, Suc (cur_col a))\<rparr>))
      else Inr a)"

definition ongoing_key :: "app \<Rightarrow> keycode \<Rightarrow> app flow result" where
  "ongoing_key a k =
     (case k of
        Esc \<Rightarrow> Inr Exit
      | Backspace \<Rightarrow> continue_with (key_backspace a)
      | Enter \<Rightarrow> continue_with (key_enter a)
      | Char_key c \<Rightarrow> continue_with (key_char c a)
      | OtherKey \<Rightarrow> Inr (Continue a))"

definition finished_key :: "string option \<Rightarrow> nat \<Rightarrow> app \<Rightarrow> keycode \<Rightarrow> app flow result" where
  "finished_key file r a k =
     (case k of
        Esc \<Rightarrow> Inr Exit
      | Enter \<Rightarrow> continue_with (app_default file r)
      | _ \<Rightarrow> Inr (Continue a))"

definition handle_key :: "string option \<Rightarrow> nat \<Rightarrow> app \<Rightarrow> keycode \<Rightarrow> app flow result" where
  "handle_key file r a k =
     (case app.status a of
        Lost \<Rightarrow> finished_key file r a k
      | Won \<Rightarrow> finished_key file r a k
      | Ongoing \<Rightarrow> ongoing_key a k)"

definition handle_event :: "string option \<Rightarrow> nat \<Rightarrow> app \<Rightarrow> event \<Rightarrow> app flow result" where
  "handle_event file r a ev = (case ev of Key k \<Rightarrow> handle_key file r a k | NonKey \<Rightarrow> Inr (Continue a))"

fun run_app :: "string option \<Rightarrow> (nat \<Rightarrow> nat) \<Rightarrow> app \<Rightarrow> io_input list \<Rightarrow> run_result" where
  "run_app file rs a [] = Blocked a"
| "run_app file rs a (IoFail # _) = IoErr a"
| "run_app file rs a (Ev ev # es) =
     (case handle_event file (rs 0) a ev of
        Inl e \<Rightarrow> Panicked e
      | Inr Exit \<Rightarrow> Returned a
      | Inr (Continue a') \<Rightarrow> run_app file (\<lambda>k. rs (Suc k)) a' es)"

text \<open>The well-formedness invariant: the board is 6 by 5 and the cursor is inside it.\<close>

definition wf_app :: "app \<Rightarrow> bool" where
  "wf_app a \<longleftrightarrow> grid 6 5 (characters a) \<and> cur_row a \<le> 5 \<and> cur_col a \<le> 5"

text \<open>The effect of the colouring loop, cell by cell.\<close>

definition mark_cell :: "string \<Rightarrow> nat \<Rightarrow> character \<Rightarrow> character" where
  "mark_cell w i x = x\<lparr>character.status := value_status (character x) w (w ! i)\<rparr>"

definition mark_cells :: "string \<Rightarrow> nat list \<Rightarrow> character list \<Rightarrow> character list" where
  "mark_cells w ixs row = fold (\<lambda>i row. row[i := mark_cell w i (row ! i)]) ixs row"

lemma wf_app_dims [simp]:
  "wf_app a \<Longrightarrow> length (characters a) = 6"
  "wf_app a \<Longrightarrow> i < 6 \<Longrightarrow> length (characters a ! i) = 5"
  "wf_app a \<Longrightarrow> cur_row a < 6"
  "wf_app a \<Longrightarrow> cur_col a \<le> 5"
  by (auto simp: wf_app_def)

lemma continue_with_simps [simp]:
  "continue_with (Inl e) = Inl e"
  "continue_with (Inr a) = Inr (Continue a)"
  by (simp_all add: continue_with_def)

lemma continue_with_Inl_iff [simp]: "(\<exists>e. continue_with x = Inl e) \<longleftrightarrow> (\<exists>e. x = Inl e)"
  by (cases x) simp_all

lemmas key_defs = key_backspace_def key_enter_def key_char_def
lemmas dispatch_defs = handle_event_def handle_key_def ongoing_key_def finished_key_def

section \<open>The colouring loop\<close>

lemma mark_cells_simps [simp]:
  "mark_cells w [] row = row"
  "mark_cells w (i # ixs) row = mark_cells w ixs (row[i := mark_cell w i (row ! i)])"
  by (simp_all add: mark_cells_def)

lemma length_mark_cells [simp]: "length (mark_cells w ixs row) = length row"
  by (induction ixs arbitrary: row) auto

lemma character_mark_cell [simp]: "character (mark_cell w i x) = character x"
  by (simp add: mark_cell_def)

lemma nth_mark_cells:
  "distinct ixs \<Longrightarrow> j < length row \<Longrightarrow>
   mark_cells w ixs row ! j = (if j \<in> set ixs then mark_cell w j (row ! j) else row ! j)"
proof (induction ixs arbitrary: row)
  case (Cons i ixs)
  then show ?case by (cases "i < length row") (auto simp: nth_list_update)
qed simp

lemma mark_cells_upto:
  "length row = 5 \<Longrightarrow> mark_cells w [0..<5] row = map (\<lambda>i. mark_cell w i (row ! i)) [0..<5]"
  by (rule nth_equalityI) (simp_all add: nth_mark_cells)

lemma row_string_mark_cell_update [simp]:
  "row_string (row[i := mark_cell w i (row ! i)]) = row_string row"
  by (cases "i < length row")
    (auto simp: row_string_def nth_list_update list_update_beyond intro!: nth_equalityI)

lemma row_string_mark_cells [simp]: "row_string (mark_cells w ixs row) = row_string row"
  by (induction ixs arbitrary: row) simp_all

lemma status_mark_cells:
  "length row = 5 \<Longrightarrow>
   map character.status (mark_cells w [0..<5] row) = eval_guess w (row_string row)"
  by (simp add: mark_cells_upto eval_guess_def mark_cell_def row_string_def)

lemma commit_row_ok:
  "r < length b \<Longrightarrow> \<forall>i \<in> set ixs. i < length (b ! r) \<and> i < length w \<Longrightarrow>
   commit_row w r ixs b = Inr (b[r := mark_cells w ixs (b ! r)])"
proof (induction ixs arbitrary: b)
  case (Cons i ixs)
  then show ?case by (simp add: mark_cell_def)
qed simp

lemma commit_row_panics:
  "r < length b \<Longrightarrow> \<forall>i \<in> set ixs. i < length (b ! r) \<Longrightarrow> \<exists>i \<in> set ixs. length w \<le> i \<Longrightarrow>
   commit_row w r ixs b = Inl IndexOutOfBounds"
proof (induction ixs arbitrary: b)
  case (Cons i ixs)
  then show ?case by (cases "i < length w") auto
qed simp

lemma commit_row_grid:
  assumes "grid 6 5 b" "r < 6" "5 \<le> length w"
  shows "commit_row w r [0..<5] b = Inr (b[r := mark_cells w [0..<5] (b ! r)])"
    and "grid 6 5 (b[r := mark_cells w [0..<5] (b ! r)])"
proof -
  show "commit_row w r [0..<5] b = Inr (b[r := mark_cells w [0..<5] (b ! r)])"
    using assms by (intro commit_row_ok) auto
  show "grid 6 5 (b[r := mark_cells w [0..<5] (b ! r)])"
    using assms by (simp add: grid_update_row)
qed

lemma commit_row_short_word:
  "grid 6 5 b \<Longrightarrow> r < 6 \<Longrightarrow> length w < 5 \<Longrightarrow>
   commit_row w r [0..<5] b = Inl IndexOutOfBounds"
  by (rule commit_row_panics) auto

section \<open>The operations one by one\<close>

lemma fresh_app_simps [simp]:
  "characters (fresh_app w) = default_characters"
  "position (fresh_app w) = (0, 0)"
  "app.status (fresh_app w) = Ongoing"
  "word (fresh_app w) = w"
  "message (fresh_app w) = []"
  by (simp_all add: fresh_app_def)

lemma wf_fresh_app [simp]: "wf_app (fresh_app w)"
  by (simp add: wf_app_def)

lemma app_default_Some:
  "app_default (Some s) r = Inr (fresh_app (words_of_file s ! (r mod length (words_of_file s))))"
  by (simp add: app_default_def)

lemma app_default_None [simp]: "app_default None r = Inl FileUnreadable"
  by (simp add: app_default_def)

lemma app_default_wf: "app_default file r = Inr a \<Longrightarrow> wf_app a"
  by (cases "file") (auto simp: app_default_Some)

lemma handle_event_Esc: "handle_event file r a (Key Esc) = Inr Exit"
  by (cases "app.status a") (simp_all add: dispatch_defs)

lemma app_default_crane: "app_default (Some ''crane'') 0 = Inr (fresh_app ''crane'')"
  by (simp add: app_default_Some words_of_file_def split_newline_def trim_def is_whitespace_def)

lemma key_backspace_ok: "wf_app a \<Longrightarrow> key_backspace a = Inr a' \<Longrightarrow> wf_app a'"
  by (auto simp: key_backspace_def wf_app_def split: if_splits)

lemma key_backspace_no_panic: "wf_app a \<Longrightarrow> key_backspace a \<noteq> Inl e"
  by (auto simp: key_backspace_def wf_app_def)

lemma key_char_ok: "wf_app a \<Longrightarrow> key_char c a = Inr a' \<Longrightarrow> wf_app a'"
  by (auto simp: key_char_def wf_app_def split: if_splits)

lemma key_char_no_panic: "wf_app a \<Longrightarrow> key_char c a \<noteq> Inl e"
  by (auto simp: key_char_def wf_app_def)

text \<open>When Enter is accepted: a full row that is not the secret, on a row before the last.\<close>

definition commits :: "app \<Rightarrow> bool" where
  "commits a \<longleftrightarrow> 5 \<le> cur_col a \<and> cur_row a < 5 \<and>
     str_to_lowercase (row_string (characters a ! cur_row a)) \<noteq> str_to_lowercase (word a)"

lemma key_enter_commit:
  assumes "wf_app a" "commits a" "5 \<le> length (word a)"
  shows "key_enter a = Inr (a\<lparr>characters := (characters a)[cur_row a :=
            mark_cells (word a) [0..<5] (characters a ! cur_row a)],
          position := (Suc (cur_row a), 0)\<rparr>)"
  using assms commit_row_grid(1) [of "characters a" "cur_row a" "word a"]
  by (simp add: key_enter_def wf_app_def commits_def)

lemma key_enter_commit_short:
  "wf_app a \<Longrightarrow> commits a \<Longrightarrow> length (word a) < 5 \<Longrightarrow> key_enter a = Inl IndexOutOfBounds"
  by (simp add: key_enter_def wf_app_def commits_def commit_row_short_word)

lemma key_enter_no_commit:
  "wf_app a \<Longrightarrow> \<not> commits a \<Longrightarrow>
   key_enter a =
     (if cur_col a < 5 then Inr a
      else if str_to_lowercase (row_string (characters a ! cur_row a)) = str_to_lowercase (word a)
      then Inr (a\<lparr>message := ''jeromes'', status := Won\<rparr>)
      else Inr (a\<lparr>status := Lost\<rparr>))"
  by (auto simp: key_enter_def wf_app_def commits_def)

lemma key_enter_ok:
  assumes "wf_app a" "key_enter a = Inr a'"
  shows "wf_app a'"
proof (cases "commits a")
  case True
  with assms have "5 \<le> length (word a)"
    by (cases "5 \<le> length (word a)") (simp_all add: key_enter_commit_short)
  with True assms show ?thesis
    using commit_row_grid(2) [of "characters a" "cur_row a" "word a"]
    by (auto simp: key_enter_commit wf_app_def commits_def)
next
  case False
  with assms show ?thesis
    by (auto simp: key_enter_no_commit wf_app_def split: if_splits)
qed

lemma key_enter_Inl_iff:
  "wf_app a \<Longrightarrow> (\<exists>e. key_enter a = Inl e) \<longleftrightarrow> commits a \<and> length (word a) < 5"
  by (cases "commits a"; cases "5 \<le> length (word a)")
    (simp_all add: key_enter_commit key_enter_commit_short key_enter_no_commit)

lemmas op_facts = app_default_wf key_backspace_ok key_char_ok key_enter_ok

text \<open>Evaluation of concrete boards and case mappings by the simplifier.\<close>

lemmas eval_simps = default_characters_def blank_character_def row_string_def
  to_lower_char_def to_upper_first_def is_upper_range_def is_lower_range_def
  char_of_nat_bits value_status_def

section \<open>Properties of the key handler\<close>

text \<open>C1: every accepted key keeps the board 6 by 5 and the cursor within it
  (row at most 5, column at most 5), whatever the state, the file and the draw.\<close>

theorem handle_key_wf:
  assumes "wf_app a" and "handle_key file r a k = Inr (Continue a')"
  shows "wf_app a'"
  using assms
  by (cases "app.status a"; cases k)
     (auto simp: dispatch_defs continue_with_def bind_res_def dest: op_facts split: sum.splits)

theorem handle_key_wf_witness:
  "wf_app (fresh_app ''crane'') \<and>
   handle_key None 0 (fresh_app ''crane'') (Char_key CHR ''t'') =
     Inr (Continue ((fresh_app ''crane'')\<lparr>characters := default_characters[0 :=
        (replicate 5 blank_character)[0 := \<lparr>character = CHR ''T'', character.status = NotGuessed\<rparr>]],
        position := (0, 1)\<rparr>)) \<and>
   wf_app ((fresh_app ''crane'')\<lparr>characters := default_characters[0 :=
        (replicate 5 blank_character)[0 := \<lparr>character = CHR ''T'', character.status = NotGuessed\<rparr>]],
        position := (0, 1)\<rparr>)"
proof -
  have step: "handle_key None 0 (fresh_app ''crane'') (Char_key CHR ''t'') =
     Inr (Continue ((fresh_app ''crane'')\<lparr>characters := default_characters[0 :=
        (replicate 5 blank_character)[0 := \<lparr>character = CHR ''T'', character.status = NotGuessed\<rparr>]],
        position := (0, 1)\<rparr>))"
    by (simp add: dispatch_defs key_defs fresh_app_def eval_simps)
  show ?thesis using handle_key_wf [OF wf_fresh_app step] step by simp
qed


text \<open>C4: the handler panics exactly in two situations: Enter on a full, wrong row before
  the last one while the secret has fewer than 5 characters (the colouring loop indexes
  \<open>word.chars()\<close> out of range), and Enter on a finished game when \<open>words.txt\<close> cannot be
  read.  Every other key in every well-formed state is handled without a panic.\<close>

theorem handle_key_panics_iff:
  assumes "wf_app a"
  shows "(\<exists>e. handle_key file r a k = Inl e) \<longleftrightarrow>
           (app.status a = Ongoing \<and> k = Enter \<and> commits a \<and> length (word a) < 5) \<or>
           (app.status a \<noteq> Ongoing \<and> k = Enter \<and> file = None)"
proof (cases "app.status a")
  case Ongoing
  with assms show ?thesis
    by (cases k) (simp_all add: dispatch_defs key_enter_Inl_iff key_backspace_no_panic key_char_no_panic)
next
  case Won
  then show ?thesis
    by (cases k; cases "file") (simp_all add: dispatch_defs app_default_Some)
next
  case Lost
  then show ?thesis
    by (cases k; cases "file") (simp_all add: dispatch_defs app_default_Some)
qed

theorem handle_key_panics_iff_witness:
  "wf_app ((fresh_app ''ab'')\<lparr>characters := default_characters[0 :=
      map (\<lambda>c. \<lparr>character = c, character.status = NotGuessed\<rparr>) ''TRACE''], position := (0, 5)\<rparr>) \<and>
   (\<exists>e. handle_key None 0 ((fresh_app ''ab'')\<lparr>characters := default_characters[0 :=
      map (\<lambda>c. \<lparr>character = c, character.status = NotGuessed\<rparr>) ''TRACE''], position := (0, 5)\<rparr>) Enter = Inl e)"
proof -
  have wf: "wf_app ((fresh_app ''ab'')\<lparr>characters := default_characters[0 :=
      map (\<lambda>c. \<lparr>character = c, character.status = NotGuessed\<rparr>) ''TRACE''], position := (0, 5)\<rparr>)"
    by (simp add: wf_app_def grid_update_row)
  show ?thesis
    using wf handle_key_panics_iff [OF wf, of None 0 Enter]
    by (simp add: commits_def eval_simps)
qed

text \<open>C5: Enter on a full row whose text equals the secret, ignoring case, wins: the
  status becomes Won, the message is set, and the board and cursor are kept, so the
  cursor row plus one is the number of attempts used.\<close>

theorem enter_correct_guess_wins:
  assumes "wf_app a" "app.status a = Ongoing" "cur_col a = 5"
    and "str_to_lowercase (row_string (characters a ! cur_row a)) = str_to_lowercase (word a)"
  shows "handle_key file r a Enter = Inr (Continue (a\<lparr>message := ''jeromes'', app.status := Won\<rparr>))"
  using assms by (simp add: dispatch_defs key_enter_no_commit commits_def)

theorem enter_correct_guess_wins_witness:
  "handle_key None 0 ((fresh_app ''crane'')\<lparr>characters := default_characters[2 :=
      map (\<lambda>c. \<lparr>character = c, character.status = NotGuessed\<rparr>) ''CRANE''], position := (2, 5)\<rparr>) Enter =
   Inr (Continue ((fresh_app ''crane'')\<lparr>characters := default_characters[2 :=
      map (\<lambda>c. \<lparr>character = c, character.status = NotGuessed\<rparr>) ''CRANE''], position := (2, 5),
      message := ''jeromes'', app.status := Won\<rparr>))"
proof -
  have wf: "wf_app ((fresh_app ''crane'')\<lparr>characters := default_characters[2 :=
      map (\<lambda>c. \<lparr>character = c, character.status = NotGuessed\<rparr>) ''CRANE''], position := (2, 5)\<rparr>)"
    by (simp add: wf_app_def grid_update_row)
  show ?thesis
    by (rule enter_correct_guess_wins [OF wf]) (simp_all add: eval_simps)
qed

text \<open>C6: Enter on a full, wrong row before the last one, with a secret of at least 5
  characters, colours exactly that row with \<open>value\<close> against the secret (statuses
  \<open>eval_guess\<close>), changes no letter and no other row, and moves the cursor to the start
  of the next row.\<close>

theorem enter_wrong_guess_commits:
  assumes "wf_app a" "app.status a = Ongoing" "cur_col a = 5" "cur_row a < 5"
    and "str_to_lowercase (row_string (characters a ! cur_row a)) \<noteq> str_to_lowercase (word a)"
    and "5 \<le> length (word a)"
  shows "\<exists>b. handle_key file r a Enter =
              Inr (Continue (a\<lparr>characters := b, position := (Suc (cur_row a), 0)\<rparr>)) \<and>
            map character.status (b ! cur_row a) =
              eval_guess (word a) (row_string (characters a ! cur_row a)) \<and>
            map row_string b = map row_string (characters a) \<and>
            (\<forall>i. i \<noteq> cur_row a \<longrightarrow> b ! i = characters a ! i)"
proof -
  let ?row = "characters a ! cur_row a"
  let ?b = "(characters a)[cur_row a := mark_cells (word a) [0..<5] ?row]"
  have c: "commits a" using assms by (simp add: commits_def)
  have len: "length ?row = 5" using assms(1) by simp
  have "handle_key file r a Enter =
          Inr (Continue (a\<lparr>characters := ?b, position := (Suc (cur_row a), 0)\<rparr>))"
    using assms c by (simp add: dispatch_defs key_enter_commit)
  moreover have "map character.status (?b ! cur_row a) = eval_guess (word a) (row_string ?row)"
    using assms(1) len by (simp add: status_mark_cells)
  moreover have "map row_string ?b = map row_string (characters a)"
    using assms(1) by (intro nth_equalityI) (auto simp: nth_list_update)
  ultimately show ?thesis by auto
qed

theorem enter_wrong_guess_commits_witness:
  "\<exists>b. handle_key None 0 ((fresh_app ''crane'')\<lparr>characters := default_characters[0 :=
      map (\<lambda>c. \<lparr>character = c, character.status = NotGuessed\<rparr>) ''TRACE''], position := (0, 5)\<rparr>) Enter =
      Inr (Continue ((fresh_app ''crane'')\<lparr>characters := b, position := (1, 0)\<rparr>)) \<and>
    map character.status (b ! 0) = [Incorrect, Correct, Correct, Incorrect, Correct]"
proof -
  let ?a = "(fresh_app ''crane'')\<lparr>characters := default_characters[0 :=
      map (\<lambda>c. \<lparr>character = c, character.status = NotGuessed\<rparr>) ''TRACE''], position := (0, 5)\<rparr>"
  have wf: "wf_app ?a" by (simp add: wf_app_def grid_update_row)
  have ev: "eval_guess ''crane'' ''TRACE'' = [Incorrect, Correct, Correct, Incorrect, Correct]"
    by (simp add: eval_guess_def eval_simps upt_rec)
  have h: "app.status ?a = Ongoing" "cur_col ?a = 5" "cur_row ?a < 5"
    "str_to_lowercase (row_string (characters ?a ! cur_row ?a)) \<noteq> str_to_lowercase (word ?a)"
    "5 \<le> length (word ?a)"
    by (simp_all add: eval_simps)
  from enter_wrong_guess_commits [OF wf h, of None 0] obtain b where
    b: "handle_key None 0 ?a Enter =
          Inr (Continue (?a\<lparr>characters := b, position := (Suc (cur_row ?a), 0)\<rparr>))"
       "map character.status (b ! cur_row ?a) = eval_guess (word ?a) (row_string (characters ?a ! cur_row ?a))"
    by blast
  have "map character.status (b ! 0) = [Incorrect, Correct, Correct, Incorrect, Correct]"
    using b(2) ev by (simp add: row_string_def default_characters_def)
  with b(1) show ?thesis by auto
qed

text \<open>C7: Enter on a full, wrong last row loses without colouring it: only the status
  changes.\<close>

theorem enter_last_row_loses:
  assumes "wf_app a" "app.status a = Ongoing" "cur_col a = 5" "cur_row a = 5"
    and "str_to_lowercase (row_string (characters a ! cur_row a)) \<noteq> str_to_lowercase (word a)"
  shows "handle_key file r a Enter = Inr (Continue (a\<lparr>app.status := Lost\<rparr>))"
  using assms by (simp add: dispatch_defs key_enter_no_commit commits_def)

theorem enter_last_row_loses_witness:
  "handle_key None 0 ((fresh_app ''crane'')\<lparr>characters := default_characters[5 :=
      map (\<lambda>c. \<lparr>character = c, character.status = NotGuessed\<rparr>) ''TRACE''], position := (5, 5)\<rparr>) Enter =
   Inr (Continue ((fresh_app ''crane'')\<lparr>characters := default_characters[5 :=
      map (\<lambda>c. \<lparr>character = c, character.status = NotGuessed\<rparr>) ''TRACE''], position := (5, 5),
      app.status := Lost\<rparr>))"
proof -
  have wf: "wf_app ((fresh_app ''crane'')\<lparr>characters := default_characters[5 :=
      map (\<lambda>c. \<lparr>character = c, character.status = NotGuessed\<rparr>) ''TRACE''], position := (5, 5)\<rparr>)"
    by (simp add: wf_app_def grid_update_row)
  show ?thesis
    by (rule enter_last_row_loses [OF wf]) (simp_all add: eval_simps)
qed

text \<open>C28: in a finished game (Won or Lost), Enter restarts with a fresh board whose secret
  is a word of the pool, and every word of the pool is a possible new secret.\<close>

theorem finished_enter_resets:
  assumes "app.status a \<noteq> Ongoing"
  shows "(\<exists>r. handle_key (Some s) r a Enter = Inr (Continue (fresh_app w))) \<longleftrightarrow>
         w \<in> set (words_of_file s)"
proof
  assume "\<exists>r. handle_key (Some s) r a Enter = Inr (Continue (fresh_app w))"
  then obtain r where "fresh_app (words_of_file s ! (r mod length (words_of_file s))) = fresh_app w"
    using assms by (cases "app.status a") (auto simp: dispatch_defs app_default_Some)
  then have "w = words_of_file s ! (r mod length (words_of_file s))"
    by (simp add: fresh_app_def)
  then show "w \<in> set (words_of_file s)" by simp
next
  assume "w \<in> set (words_of_file s)"
  then obtain i where i: "i < length (words_of_file s)" "words_of_file s ! i = w"
    by (auto simp: in_set_conv_nth)
  then have "handle_key (Some s) i a Enter = Inr (Continue (fresh_app w))"
    using assms by (cases "app.status a") (auto simp: dispatch_defs app_default_Some)
  then show "\<exists>r. handle_key (Some s) r a Enter = Inr (Continue (fresh_app w))" ..
qed

theorem finished_enter_resets_witness:
  "handle_key (Some ''crane\<newline>trace'') 1 ((fresh_app ''crane'')\<lparr>app.status := Won\<rparr>) Enter =
     Inr (Continue (fresh_app ''trace'')) \<and> ''trace'' \<in> set (words_of_file ''crane\<newline>trace'')"
proof -
  have "app.status ((fresh_app ''crane'')\<lparr>app.status := Won\<rparr>) \<noteq> Ongoing" by simp
  from finished_enter_resets [OF this, of "''crane\<newline>trace''" "''trace''"]
  have iff: "(\<exists>r. handle_key (Some ''crane\<newline>trace'') r ((fresh_app ''crane'')\<lparr>app.status := Won\<rparr>) Enter =
              Inr (Continue (fresh_app ''trace''))) \<longleftrightarrow> ''trace'' \<in> set (words_of_file ''crane\<newline>trace'')" .
  have pool: "words_of_file ''crane\<newline>trace'' = [''crane'', ''trace'']"
    by (simp add: words_of_file_def split_newline_def trim_def is_whitespace_def)
  have "handle_key (Some ''crane\<newline>trace'') 1 ((fresh_app ''crane'')\<lparr>app.status := Won\<rparr>) Enter =
     Inr (Continue (fresh_app ''trace''))"
    by (simp add: dispatch_defs app_default_Some pool)
  with iff pool show ?thesis by simp
qed

text \<open>C29: a finished game ignores every key but Esc (exit) and Enter (restart): the
  state, including its status, is unchanged.\<close>

theorem finished_ignores_other_keys:
  assumes "app.status a \<noteq> Ongoing" "k \<noteq> Esc" "k \<noteq> Enter"
  shows "handle_key file r a k = Inr (Continue a)"
  using assms by (cases "app.status a"; cases k) (simp_all add: dispatch_defs)

theorem finished_ignores_other_keys_witness:
  "handle_key None 0 ((fresh_app ''crane'')\<lparr>app.status := Lost\<rparr>) (Char_key CHR ''x'') =
   Inr (Continue ((fresh_app ''crane'')\<lparr>app.status := Lost\<rparr>))"
  by (rule finished_ignores_other_keys) simp_all

text \<open>C36: typing a letter into a blank cell of an ongoing game stores it upper-cased at the
  cursor and moves the cursor one column right; Backspace then gives back exactly the state
  before the letter (the cell blank again, the cursor where it was).\<close>

theorem char_backspace_roundtrip:
  assumes "wf_app a" "app.status a = Ongoing" "cur_col a < 5"
    and "characters a ! cur_row a ! cur_col a = blank_character"
  shows "\<exists>a'. handle_key f r a (Char_key c) = Inr (Continue a') \<and>
           position a' = (cur_row a, Suc (cur_col a)) \<and>
           characters a' ! cur_row a ! cur_col a = \<lparr>character = to_upper_first c, character.status = NotGuessed\<rparr> \<and>
           handle_key f r a' Backspace = Inr (Continue a)"
proof -
  let ?b = "(characters a)[cur_row a := (characters a ! cur_row a)[cur_col a :=
              (characters a ! cur_row a ! cur_col a)\<lparr>character := to_upper_first c\<rparr>]]"
  let ?a' = "a\<lparr>characters := ?b, position := (cur_row a, Suc (cur_col a))\<rparr>"
  have rc: "cur_row a < 6" "length (characters a ! cur_row a) = 5"
    using assms(1) by simp_all
  have k: "handle_key f r a (Char_key c) = Inr (Continue ?a')"
    using assms(1-3) rc by (simp add: dispatch_defs key_char_def)
  have "?b[cur_row a := (?b ! cur_row a)[cur_col a := (?b ! cur_row a ! cur_col a)\<lparr>character := CHR '' ''\<rparr>]] =
        characters a"
  proof -
    have "(characters a ! cur_row a)[cur_col a := blank_character] = characters a ! cur_row a"
      by (metis assms(4) list_update_id)
    then show ?thesis using assms(1,3,4) rc by (simp add: blank_character_def)
  qed
  then have "handle_key f r ?a' Backspace = Inr (Continue a)"
    using assms(1-3) rc by (simp add: dispatch_defs key_backspace_def)
  with k assms(1,3,4) rc show ?thesis by (simp add: blank_character_def)
qed

theorem char_backspace_roundtrip_witness:
  "\<exists>a'. handle_key None 0 (fresh_app ''crane'') (Char_key CHR ''x'') = Inr (Continue a') \<and>
        position a' = (0, 1) \<and>
        characters a' ! 0 ! 0 = \<lparr>character = CHR ''X'', character.status = NotGuessed\<rparr> \<and>
        handle_key None 0 a' Backspace = Inr (Continue (fresh_app ''crane''))"
proof -
  have h: "wf_app (fresh_app ''crane'')" "app.status (fresh_app ''crane'') = Ongoing"
    "cur_col (fresh_app ''crane'') < 5"
    "characters (fresh_app ''crane'') ! cur_row (fresh_app ''crane'') ! cur_col (fresh_app ''crane'') =
     blank_character"
    by (simp_all add: default_characters_def)
  from char_backspace_roundtrip [OF h, of None 0 "CHR ''x''"] show ?thesis
    by (simp add: eval_simps)
qed

end
