(* ===== verification/Abstract.thy ===== *)
theory Abstract
  imports Game
begin

text \<open>
  The game as the specification describes it (section 4.4), with no board: a secret,
  the guesses committed so far, the letters typed in the current attempt, and the
  status.  \<open>game_step\<close> is the specification's transition for one key while the game is
  Ongoing; \<open>abs_game\<close> reads an \<open>app\<close> as such a game (the committed guesses are the
  texts of the rows above the cursor, the typed letters those left of it).
  \<open>handle_key_refines\<close> shows that, from every well-formed ongoing state whose secret
  has at least 5 characters, the key handler of \<open>run_app\<close> does not panic, exits
  exactly on Esc, and otherwise moves to a state whose abstraction is the abstract
  step: a functional refinement \<open>abs_game (step a) = game_step (abs_game a)\<close>.
\<close>

record game =
  secret :: string
  guesses :: "string list"
  typed :: string
  outcome :: gamestatus

definition game_step :: "game \<Rightarrow> keycode \<Rightarrow> game" where
  "game_step g k =
     (case k of
        Backspace \<Rightarrow> g\<lparr>typed := butlast (typed g)\<rparr>
      | Char_key c \<Rightarrow>
          if length (typed g) < 5 then g\<lparr>typed := typed g @ [to_upper_first c]\<rparr> else g
      | Enter \<Rightarrow>
          if length (typed g) = 5 then
            if str_to_lowercase (typed g) = str_to_lowercase (secret g) then g\<lparr>outcome := Won\<rparr>
            else if length (guesses g) = 5 then g\<lparr>outcome := Lost\<rparr>
            else g\<lparr>guesses := guesses g @ [typed g], typed := []\<rparr>
          else g
      | _ \<Rightarrow> g)"

definition abs_game :: "app \<Rightarrow> game" where
  "abs_game a =
     \<lparr>secret = word a,
      guesses = map (\<lambda>i. row_string (characters a ! i)) [0..<cur_row a],
      typed = take (cur_col a) (row_string (characters a ! cur_row a)),
      outcome = app.status a\<rparr>"

section \<open>One lemma per key\<close>

lemma length_typed_abs [simp]: "wf_app a \<Longrightarrow> length (typed (abs_game a)) = cur_col a"
  by (simp add: abs_game_def)

lemma abs_game_simps [simp]:
  "length (guesses (abs_game a)) = cur_row a"
  "secret (abs_game a) = word a"
  "outcome (abs_game a) = app.status a"
  by (simp_all add: abs_game_def)

lemma guesses_update_row:
  "cur_row a < length (characters a) \<Longrightarrow>
   map (\<lambda>i. row_string ((characters a)[cur_row a := x] ! i)) [0..<cur_row a] =
   map (\<lambda>i. row_string (characters a ! i)) [0..<cur_row a]"
  by (simp add: nth_list_update_neq)

lemma wf_app_cursor:
  assumes "wf_app a"
  shows "cur_row a < 6" "cur_col a \<le> 5" "cur_row a < length (characters a)"
    "length (characters a ! cur_row a) = 5"
  using assms by simp_all

lemma abs_key_backspace:
  assumes "wf_app a" "key_backspace a = Inr a'"
  shows "abs_game a' = game_step (abs_game a) Backspace"
proof (cases "1 \<le> cur_col a")
  case True
  let ?rs = "row_string (characters a ! cur_row a)"
  note dims = wf_app_cursor [OF assms(1)]
  let ?c = "cur_col a - 1" and ?row = "characters a ! cur_row a"
  have "key_backspace a = Inr (a\<lparr>characters := (characters a)[cur_row a :=
          ?row[?c := (?row ! ?c)\<lparr>character := CHR '' ''\<rparr>]], position := (cur_row a, ?c)\<rparr>)"
    using dims True by (simp add: key_backspace_def update2_checked_def)
  then have a': "a' = a\<lparr>characters := (characters a)[cur_row a :=
          ?row[?c := (?row ! ?c)\<lparr>character := CHR '' ''\<rparr>]], position := (cur_row a, ?c)\<rparr>"
    using assms(2) by simp
  have "take ?c (?rs[?c := CHR '' '']) = butlast (take (cur_col a) ?rs)"
    using dims True by (simp add: take_update_cancel butlast_take)
  with dims a' show ?thesis
    by (simp add: abs_game_def game_step_def guesses_update_row row_string_def map_update)
next
  case False
  then have "cur_col a = 0" by simp
  with assms show ?thesis by (simp add: key_backspace_def abs_game_def game_step_def)
qed

lemma abs_key_char:
  assumes "wf_app a" "key_char c a = Inr a'"
  shows "abs_game a' = game_step (abs_game a) (Char_key c)"
proof (cases "cur_col a < 5")
  case True
  let ?rs = "row_string (characters a ! cur_row a)"
  note dims = wf_app_cursor [OF assms(1)]
  let ?row = "characters a ! cur_row a"
  have "key_char c a = Inr (a\<lparr>characters := (characters a)[cur_row a :=
          ?row[cur_col a := (?row ! cur_col a)\<lparr>character := to_upper_first c\<rparr>]],
          position := (cur_row a, Suc (cur_col a))\<rparr>)"
    using dims True by (simp add: key_char_def update2_checked_def)
  then have a': "a' = a\<lparr>characters := (characters a)[cur_row a :=
          ?row[cur_col a := (?row ! cur_col a)\<lparr>character := to_upper_first c\<rparr>]],
          position := (cur_row a, Suc (cur_col a))\<rparr>"
    using assms(2) by simp
  have "take (Suc (cur_col a)) (?rs[cur_col a := to_upper_first c]) =
        take (cur_col a) ?rs @ [to_upper_first c]"
    using dims True by (simp add: take_Suc_conv_app_nth take_update_cancel)
  with dims True a' show ?thesis
    by (simp add: abs_game_def game_step_def guesses_update_row row_string_def map_update)
next
  case False
  with assms show ?thesis by (auto simp: key_char_def abs_game_def game_step_def)
qed

lemma abs_key_enter_commit:
  assumes "wf_app a" "commits a" "5 \<le> length (word a)"
  shows "abs_game (a\<lparr>characters := (characters a)[cur_row a :=
            mark_cells (word a) [0..<5] (characters a ! cur_row a)],
          position := (Suc (cur_row a), 0)\<rparr>) = game_step (abs_game a) Enter"
proof -
  have col: "cur_col a = 5" using assms(2) wf_app_cursor [OF assms(1)] by (simp add: commits_def)
  have row: "cur_row a < 5" using assms(2) by (simp add: commits_def)
  let ?b = "(characters a)[cur_row a := mark_cells (word a) [0..<5] (characters a ! cur_row a)]"
  have "map (\<lambda>i. row_string (?b ! i)) [0..<Suc (cur_row a)] =
        map (\<lambda>i. row_string (characters a ! i)) [0..<cur_row a] @ [row_string (characters a ! cur_row a)]"
    using assms(1) by (simp add: nth_list_update_neq)
  with assms col row show ?thesis
    by (simp add: abs_game_def game_step_def commits_def)
qed

lemma abs_key_enter:
  assumes "wf_app a" "key_enter a = Inr a'"
  shows "abs_game a' = game_step (abs_game a) Enter"
proof (cases "commits a")
  case True
  have "5 \<le> length (word a)"
    using True assms by (cases "5 \<le> length (word a)") (simp_all add: key_enter_commit_short)
  with True assms have "a' = a\<lparr>characters := (characters a)[cur_row a :=
            mark_cells (word a) [0..<5] (characters a ! cur_row a)],
          position := (Suc (cur_row a), 0)\<rparr>"
    by (simp add: key_enter_commit)
  with assms True \<open>5 \<le> length (word a)\<close> show ?thesis by (simp add: abs_key_enter_commit)
next
  case False
  show ?thesis
  proof (cases "cur_col a < 5")
    case True
    with assms False show ?thesis by (simp add: key_enter_no_commit abs_game_def game_step_def)
  next
    case col: False
    with wf_app_cursor [OF assms(1)] have c5: "cur_col a = 5" by simp
    have "cur_row a < 5 \<or> cur_row a = 5" using wf_app_cursor(1) [OF assms(1)] by linarith
    with assms False c5 show ?thesis
      by (auto simp: key_enter_no_commit abs_game_def game_step_def commits_def split: if_splits)
  qed
qed

section \<open>The refinement\<close>

text \<open>C2: the key handler refines the specification's game: in a well-formed ongoing
  state whose secret has at least 5 characters, no key panics, a key exits exactly when it
  is Esc, and every other key moves the abstraction of the state by the abstract step.\<close>

theorem handle_key_refines:
  assumes "wf_app a" "app.status a = Ongoing" "5 \<le> length (word a)"
  shows "case handle_key f r a k of
           Inl e \<Rightarrow> False
         | Inr Exit \<Rightarrow> k = Esc
         | Inr (Continue a') \<Rightarrow> k \<noteq> Esc \<and> abs_game a' = game_step (abs_game a) k"
proof (cases k)
  case Backspace
  with assms show ?thesis
    by (cases "key_backspace a") (simp_all add: dispatch_defs key_backspace_no_panic abs_key_backspace)
next
  case Enter
  have "\<not> (commits a \<and> length (word a) < 5)" using assms(3) by simp
  with assms(1) have "\<nexists>e. key_enter a = Inl e" by (simp add: key_enter_Inl_iff)
  with assms Enter show ?thesis
    by (cases "key_enter a") (simp_all add: dispatch_defs abs_key_enter)
next
  case (Char_key c)
  with assms show ?thesis
    by (cases "key_char c a") (simp_all add: dispatch_defs key_char_no_panic abs_key_char)
qed (simp_all add: assms dispatch_defs game_step_def)

theorem handle_key_refines_witness:
  "abs_game ((fresh_app ''crane'')\<lparr>characters := default_characters[0 :=
      (replicate 5 blank_character)[0 := \<lparr>character = CHR ''T'', character.status = NotGuessed\<rparr>]],
      position := (0, 1)\<rparr>) = game_step (abs_game (fresh_app ''crane'')) (Char_key CHR ''t'')"
proof -
  have h: "wf_app (fresh_app ''crane'')" "app.status (fresh_app ''crane'') = Ongoing"
    "5 \<le> length (word (fresh_app ''crane''))" by simp_all
  have step: "handle_key None 0 (fresh_app ''crane'') (Char_key CHR ''t'') =
     Inr (Continue ((fresh_app ''crane'')\<lparr>characters := default_characters[0 :=
        (replicate 5 blank_character)[0 := \<lparr>character = CHR ''T'', character.status = NotGuessed\<rparr>]],
        position := (0, 1)\<rparr>))"
    by (simp add: dispatch_defs key_defs fresh_app_def eval_simps)
  show ?thesis using handle_key_refines [OF h, where f = None and r = 0 and k = "Char_key CHR ''t''"] step by simp
qed

end
