(* ===== verification/Runs.thy ===== *)
theory Runs
  imports Abstract
begin

text \<open>
  Whole runs of the loop \<open>run_app\<close>: typing a word letter by letter and submitting it.
  The per-key facts come from the refinement lemmas of theory \<open>Abstract\<close>: typing a
  letter appends its upper case to the typed letters, and Enter on five typed letters
  wins, loses or commits.  The results: six wrong guesses from a fresh game end in Lost
  after exactly six submissions; a secret shorter than five characters makes the first
  wrong submission panic.
\<close>

definition char_inputs :: "string \<Rightarrow> io_input list" where
  "char_inputs g = map (\<lambda>c. Ev (Key (Char_key c))) g"

definition type_guess :: "string \<Rightarrow> io_input list" where
  \<comment> \<open>the key presses of one attempt: the letters, then Enter\<close>
  "type_guess g = char_inputs g @ [Ev (Key Enter)]"

definition wrong_guess :: "string \<Rightarrow> string \<Rightarrow> bool" where
  "wrong_guess w g \<longleftrightarrow> length g = 5 \<and> str_to_lowercase (map to_upper_first g) \<noteq> str_to_lowercase w"

lemma key_char_Inr:
  assumes "wf_app a"
  obtains a' where "key_char c a = Inr a'"
  using key_char_no_panic [OF assms] by (cases "key_char c a") auto

lemma status_key_char: "key_char c a = Inr a' \<Longrightarrow> app.status a' = app.status a"
  by (auto simp: key_char_def bind_res_def update2_checked_def split: if_splits)

lemma run_app_char:
  assumes "wf_app a" "app.status a = Ongoing" "key_char c a = Inr a'"
  shows "run_app f rs a (Ev (Key (Char_key c)) # es) = run_app f (\<lambda>k. rs (Suc k)) a' es"
  using assms by (simp add: dispatch_defs)

lemma run_chars:
  assumes "wf_app a" "app.status a = Ongoing" "cur_col a + length g \<le> 5"
  shows "\<exists>a' rs'. run_app f rs a (char_inputs g @ es) = run_app f rs' a' es \<and> wf_app a' \<and>
           app.status a' = Ongoing \<and>
           abs_game a' = (abs_game a)\<lparr>typed := typed (abs_game a) @ map to_upper_first g\<rparr>"
  using assms
proof (induction g arbitrary: a rs)
  case Nil
  then show ?case by (auto simp: char_inputs_def)
next
  case (Cons c g)
  obtain a1 where a1: "key_char c a = Inr a1" using key_char_Inr [OF Cons.prems(1)] .
  have wf1: "wf_app a1" using Cons.prems(1) a1 by (rule key_char_ok)
  have st1: "app.status a1 = Ongoing" using Cons.prems(2) a1 by (simp add: status_key_char)
  have abs1: "abs_game a1 = game_step (abs_game a) (Char_key c)"
    using Cons.prems(1) a1 by (rule abs_key_char)
  have col1: "cur_col a1 = Suc (cur_col a)"
    using abs1 length_typed_abs [OF wf1] length_typed_abs [OF Cons.prems(1)] Cons.prems(3)
    by (simp add: game_step_def)
  then have "cur_col a1 + length g \<le> 5" using Cons.prems(3) by simp
  from Cons.IH [OF wf1 st1 this] obtain a' rs' where
    IH: "run_app f (\<lambda>k. rs (Suc k)) a1 (char_inputs g @ es) = run_app f rs' a' es" "wf_app a'"
        "app.status a' = Ongoing"
        "abs_game a' = (abs_game a1)\<lparr>typed := typed (abs_game a1) @ map to_upper_first g\<rparr>"
    by blast
  have "run_app f rs a (char_inputs (c # g) @ es) = run_app f rs' a' es"
    using run_app_char [OF Cons.prems(1,2) a1] IH(1) by (simp add: char_inputs_def)
  moreover have "abs_game a' =
      (abs_game a)\<lparr>typed := typed (abs_game a) @ map to_upper_first (c # g)\<rparr>"
    using IH(4) abs1 length_typed_abs [OF Cons.prems(1)] Cons.prems(3)
    by (simp add: game_step_def)
  ultimately show ?case using IH(2,3) by blast
qed

text \<open>After five letters typed at the start of a row, the row holds their upper case.\<close>

lemma row_after_typing:
  assumes "wf_app a'" "cur_col a' = 5"
    and "typed (abs_game a') = map to_upper_first g"
  shows "row_string (characters a' ! cur_row a') = map to_upper_first g"
  using assms by (simp add: abs_game_def)

text \<open>Typing five letters at the start of a row: the loop is left before the Enter of the
  attempt, on the same row, with the row holding the upper case of the letters.\<close>

lemma run_type_row:
  assumes "wf_app a" "app.status a = Ongoing" "cur_col a = 0" "length g = 5"
  obtains a1 rs1 where "run_app f rs a (type_guess g @ es) = run_app f rs1 a1 (Ev (Key Enter) # es)"
    and "wf_app a1" "app.status a1 = Ongoing" "cur_col a1 = 5" "cur_row a1 = cur_row a"
    and "word a1 = word a" "row_string (characters a1 ! cur_row a1) = map to_upper_first g"
proof -
  obtain a1 rs1 where r1: "run_app f rs a (char_inputs g @ [Ev (Key Enter)] @ es) =
      run_app f rs1 a1 ([Ev (Key Enter)] @ es)" and wf1: "wf_app a1"
    and st1: "app.status a1 = Ongoing"
    and abs1: "abs_game a1 = (abs_game a)\<lparr>typed := typed (abs_game a) @ map to_upper_first g\<rparr>"
    using run_chars [OF assms(1,2), where f = f and rs = rs and es = "[Ev (Key Enter)] @ es" and g = g]
      assms(3,4) by auto
  have typed0: "typed (abs_game a) = []" using assms(3) by (simp add: abs_game_def)
  have col1: "cur_col a1 = 5" using abs1 length_typed_abs [OF wf1] typed0 assms(4) by simp
  have "word a1 = word a"
    using arg_cong [OF abs1, of secret] by simp
  moreover have "cur_row a1 = cur_row a"
    using arg_cong [OF abs1, of "\<lambda>g. length (guesses g)"] by simp
  moreover have "row_string (characters a1 ! cur_row a1) = map to_upper_first g"
    using abs1 typed0 wf1 col1 by (simp add: abs_game_def)
  moreover have "run_app f rs a (type_guess g @ es) = run_app f rs1 a1 (Ev (Key Enter) # es)"
    using r1 by (simp add: type_guess_def)
  ultimately show ?thesis using that wf1 st1 col1 by blast
qed

lemma run_wrong_guess_commit:
  assumes "wf_app a" "app.status a = Ongoing" "cur_col a = 0" "cur_row a < 5"
    and "wrong_guess (word a) g" "5 \<le> length (word a)"
  shows "\<exists>a' rs'. run_app f rs a (type_guess g @ es) = run_app f rs' a' es \<and> wf_app a' \<and>
           app.status a' = Ongoing \<and> cur_col a' = 0 \<and> cur_row a' = Suc (cur_row a) \<and>
           word a' = word a"
proof -
  have len: "length g = 5" using assms(5) by (simp add: wrong_guess_def)
  obtain a1 rs1 where r1: "run_app f rs a (type_guess g @ es) = run_app f rs1 a1 (Ev (Key Enter) # es)"
    and wf1: "wf_app a1" and st1: "app.status a1 = Ongoing" and col1: "cur_col a1 = 5"
    and row1: "cur_row a1 = cur_row a" and w1: "word a1 = word a"
    and rs: "row_string (characters a1 ! cur_row a1) = map to_upper_first g"
    using run_type_row [OF assms(1-3) len] .
  have c: "commits a1"
    using col1 row1 assms(4,5) rs w1 by (simp add: commits_def wrong_guess_def)
  let ?a2 = "a1\<lparr>characters := (characters a1)[cur_row a1 :=
            mark_cells (word a1) [0..<5] (characters a1 ! cur_row a1)],
          position := (Suc (cur_row a1), 0)\<rparr>"
  have e: "key_enter a1 = Inr ?a2" using wf1 c assms(6) w1 by (simp add: key_enter_commit)
  have wf2: "wf_app ?a2" using wf1 e by (rule key_enter_ok)
  have "run_app f rs a (type_guess g @ es) = run_app f (\<lambda>k. rs1 (Suc k)) ?a2 es"
    using r1 e st1 by (simp add: dispatch_defs)
  with wf2 st1 row1 w1 show ?thesis by fastforce
qed

lemma run_wrong_guess_last:
  assumes "wf_app a" "app.status a = Ongoing" "cur_col a = 0" "cur_row a = 5"
    and "wrong_guess (word a) g"
  shows "\<exists>a' rs'. run_app f rs a (type_guess g @ es) = run_app f rs' a' es \<and>
           app.status a' = Lost \<and> cur_row a' = 5"
proof -
  have len: "length g = 5" using assms(5) by (simp add: wrong_guess_def)
  obtain a1 rs1 where r1: "run_app f rs a (type_guess g @ es) = run_app f rs1 a1 (Ev (Key Enter) # es)"
    and wf1: "wf_app a1" and st1: "app.status a1 = Ongoing" and col1: "cur_col a1 = 5"
    and row1: "cur_row a1 = cur_row a" and w1: "word a1 = word a"
    and rs: "row_string (characters a1 ! cur_row a1) = map to_upper_first g"
    using run_type_row [OF assms(1-3) len] .
  have "\<not> commits a1" using row1 assms(4) by (simp add: commits_def)
  then have e: "key_enter a1 = Inr (a1\<lparr>app.status := Lost\<rparr>)"
    using wf1 col1 rs w1 assms(5) by (simp add: key_enter_no_commit wrong_guess_def)
  have "run_app f rs a (type_guess g @ es) = run_app f (\<lambda>k. rs1 (Suc k)) (a1\<lparr>app.status := Lost\<rparr>) es"
    using r1 e st1 by (simp add: dispatch_defs)
  with row1 assms(4) show ?thesis by fastforce
qed

lemma run_right_guess:
  assumes "wf_app a" "app.status a = Ongoing" "cur_col a = 0" "length g = 5"
    and "str_to_lowercase (map to_upper_first g) = str_to_lowercase (word a)"
  shows "\<exists>a' rs'. run_app f rs a (type_guess g @ es) = run_app f rs' a' es \<and> wf_app a' \<and>
           app.status a' = Won \<and> cur_row a' = cur_row a \<and> word a' = word a"
proof -
  obtain a1 rs1 where r1: "run_app f rs a (type_guess g @ es) = run_app f rs1 a1 (Ev (Key Enter) # es)"
    and wf1: "wf_app a1" and st1: "app.status a1 = Ongoing" and col1: "cur_col a1 = 5"
    and row1: "cur_row a1 = cur_row a" and w1: "word a1 = word a"
    and rs: "row_string (characters a1 ! cur_row a1) = map to_upper_first g"
    using run_type_row [OF assms(1-4)] .
  have "\<not> commits a1" using rs w1 assms(5) by (simp add: commits_def)
  then have e: "key_enter a1 = Inr (a1\<lparr>message := ''jeromes'', app.status := Won\<rparr>)"
    using wf1 col1 rs w1 assms(5) by (simp add: key_enter_no_commit)
  have wf2: "wf_app (a1\<lparr>message := ''jeromes'', app.status := Won\<rparr>)"
    using wf1 by (simp add: wf_app_def)
  have "run_app f rs a (type_guess g @ es) =
      run_app f (\<lambda>k. rs1 (Suc k)) (a1\<lparr>message := ''jeromes'', app.status := Won\<rparr>) es"
    using r1 e st1 by (simp add: dispatch_defs)
  with wf2 row1 w1 show ?thesis by fastforce
qed

lemma run_wrong_guesses:
  assumes "wf_app a" "app.status a = Ongoing" "cur_col a = 0"
    and "cur_row a + length gs = 6" "\<forall>g \<in> set gs. wrong_guess (word a) g" "5 \<le> length (word a)"
  shows "\<exists>a' rs'. run_app f rs a (concat (map type_guess gs) @ es) = run_app f rs' a' es \<and>
           app.status a' = Lost \<and> cur_row a' = 5"
  using assms
proof (induction gs arbitrary: a rs)
  case Nil
  from Nil.prems(1) have "cur_row a < 6" by (rule wf_app_cursor(1))
  with Nil.prems(4) show ?case by simp
next
  case (Cons g gs)
  show ?case
  proof (cases "gs = []")
    case True
    with Cons.prems run_wrong_guess_last [of a g f rs es] show ?thesis by simp
  next
    case False
    then have row: "cur_row a < 5" using Cons.prems(4) by (cases gs) auto
    obtain a1 rs1 where r1: "run_app f rs a (type_guess g @ concat (map type_guess gs) @ es) =
        run_app f rs1 a1 (concat (map type_guess gs) @ es)"
      and h: "wf_app a1" "app.status a1 = Ongoing" "cur_col a1 = 0" "cur_row a1 = Suc (cur_row a)"
        "word a1 = word a"
      using run_wrong_guess_commit [OF Cons.prems(1-3) row, of g f rs] Cons.prems(5,6) by fastforce
    have "cur_row a1 + length gs = 6" using h(4) Cons.prems(4) by simp
    from Cons.IH [OF h(1-3) this, of rs1] Cons.prems(5,6) h(5) r1 show ?thesis by auto
  qed
qed


lemma run_short_secret:
  assumes "wf_app a" "app.status a = Ongoing" "cur_col a = 0" "cur_row a < 5"
    and "wrong_guess (word a) g" "length (word a) < 5"
  shows "run_app f rs a (type_guess g @ es) = Panicked IndexOutOfBounds"
proof -
  have len: "length g = 5" using assms(5) by (simp add: wrong_guess_def)
  obtain a1 rs1 where r1: "run_app f rs a (type_guess g @ es) = run_app f rs1 a1 (Ev (Key Enter) # es)"
    and wf1: "wf_app a1" and st1: "app.status a1 = Ongoing" and col1: "cur_col a1 = 5"
    and row1: "cur_row a1 = cur_row a" and w1: "word a1 = word a"
    and rs: "row_string (characters a1 ! cur_row a1) = map to_upper_first g"
    using run_type_row [OF assms(1-3) len] .
  have "commits a1"
    using col1 row1 assms(4,5) rs w1 by (simp add: commits_def wrong_guess_def)
  then have "key_enter a1 = Inl IndexOutOfBounds"
    using wf1 assms(6) w1 by (simp add: key_enter_commit_short)
  with r1 st1 show ?thesis by (simp add: dispatch_defs)
qed

text \<open>C8: from a fresh game with a secret of at least 5 characters, six submitted wrong
  guesses of five letters end the game Lost on the sixth row: the loop is then waiting
  for the next key, with no seventh row.\<close>

theorem six_wrong_guesses_lose:
  assumes "5 \<le> length w" and "length gs = 6" and "\<forall>g \<in> set gs. wrong_guess w g"
  shows "\<exists>a'. run_app f rs (fresh_app w) (concat (map type_guess gs)) = Blocked a' \<and>
           app.status a' = Lost \<and> cur_row a' = 5"
proof -
  from run_wrong_guesses [of "fresh_app w" gs f rs "[]"] assms
  obtain a' rs' where "run_app f rs (fresh_app w) (concat (map type_guess gs)) = run_app f rs' a' []"
    and "app.status a' = Lost" "cur_row a' = 5"
    by auto
  then show ?thesis by simp
qed

theorem six_wrong_guesses_lose_witness:
  "\<exists>a'. run_app None (\<lambda>_. 0) (fresh_app ''crane'') (concat (map type_guess (replicate 6 ''trace''))) =
     Blocked a' \<and> app.status a' = Lost \<and> cur_row a' = 5"
proof -
  have "wrong_guess ''crane'' ''trace''"
    by (simp add: wrong_guess_def eval_simps)
  then have h: "5 \<le> length ''crane''" "length (replicate 6 ''trace'') = 6"
    "\<forall>g \<in> set (replicate 6 ''trace''). wrong_guess ''crane'' g" by simp_all
  show ?thesis by (rule six_wrong_guesses_lose [OF h])
qed

end
