(* ===== verification/Reach.thy ===== *)
theory Reach
  imports Game
begin

text \<open>
  The states the program can be in: those \<open>App::default\<close> builds, closed under the
  event handler of \<open>run_app\<close>, for any random draws (an inductive predicate).  On them
  the board obeys the discipline the renderer relies on (\<open>board_inv\<close>): rows above the
  cursor are coloured with \<open>value\<close> against the secret, no cell at or below the cursor
  row is coloured, rows below the cursor are blank, and the current row is blank right
  of the cursor.  The proof is rule induction with one preservation lemma per key.
  The secret of every reachable state is a word of the pool, also after restarts.
\<close>

inductive reachable :: "string option \<Rightarrow> app \<Rightarrow> bool" for src :: "string option" where
  start: "app_default src r = Inr a \<Longrightarrow> reachable src a"
| step: "reachable src a \<Longrightarrow> handle_event src r a ev = Inr (Continue a') \<Longrightarrow> reachable src a'"

definition board_inv :: "app \<Rightarrow> bool" where
  "board_inv a \<longleftrightarrow> wf_app a \<and>
     (\<forall>i < cur_row a. map character.status (characters a ! i) =
                       eval_guess (word a) (row_string (characters a ! i))) \<and>
     (\<forall>i < 6. cur_row a \<le> i \<longrightarrow> (\<forall>j < 5. character.status (characters a ! i ! j) = NotGuessed)) \<and>
     (\<forall>i < 6. cur_row a < i \<longrightarrow> characters a ! i = replicate 5 blank_character) \<and>
     (\<forall>j < 5. cur_col a \<le> j \<longrightarrow> characters a ! cur_row a ! j = blank_character)"

text \<open>No cell of the board holds a lower-case letter (typed letters are stored upper-cased).\<close>

definition lower_free :: "character list list \<Rightarrow> bool" where
  "lower_free b \<longleftrightarrow> (\<forall>row \<in> set b. \<forall>x \<in> set (row_string row). \<not> is_lower_range x)"

lemma blank_character_iff: "x = blank_character \<longleftrightarrow> character x = CHR '' '' \<and> character.status x = NotGuessed"
  by (cases x) (auto simp: blank_character_def)

lemma board_inv_fresh [simp]: "board_inv (fresh_app w)"
  by (simp add: board_inv_def default_characters_def blank_character_def)

lemma board_inv_app_default: "app_default file r = Inr a \<Longrightarrow> board_inv a"
  by (cases "file") (auto simp: app_default_Some)

lemma board_inv_status [simp]:
  "board_inv (a\<lparr>app.status := s\<rparr>) = board_inv a"
  "board_inv (a\<lparr>message := m\<rparr>) = board_inv a"
  by (simp_all add: board_inv_def wf_app_def)


lemma board_inv_key_char:
  assumes "board_inv a" "key_char c a = Inr a'"
  shows "board_inv a'"
proof (cases "cur_col a < 5")
  case True
  have wf: "wf_app a" using assms(1) by (simp add: board_inv_def)
  note dims = wf_app_dims [OF wf]
  let ?row = "characters a ! cur_row a"
  have a': "a' = a\<lparr>characters := (characters a)[cur_row a :=
          ?row[cur_col a := (?row ! cur_col a)\<lparr>character := to_upper_first c\<rparr>]],
          position := (cur_row a, Suc (cur_col a))\<rparr>"
    using assms(2) dims True by (simp add: key_char_def update2_checked_def)
  have "wf_app a'" using wf assms(2) by (rule key_char_ok)
  with assms(1) dims True show ?thesis
    unfolding a' by (auto simp: board_inv_def nth_list_update)
next
  case False
  with assms show ?thesis by (simp add: key_char_def)
qed

lemma board_inv_key_backspace:
  assumes "board_inv a" "key_backspace a = Inr a'"
  shows "board_inv a'"
proof (cases "1 \<le> cur_col a")
  case True
  have wf: "wf_app a" using assms(1) by (simp add: board_inv_def)
  note dims = wf_app_dims [OF wf]
  let ?row = "characters a ! cur_row a" and ?c = "cur_col a - 1"
  have c: "?c < 5" using dims(4) by linarith
  have a': "a' = a\<lparr>characters := (characters a)[cur_row a :=
          ?row[?c := (?row ! ?c)\<lparr>character := CHR '' ''\<rparr>]], position := (cur_row a, ?c)\<rparr>"
    using assms(2) dims c True by (simp add: key_backspace_def update2_checked_def)
  have "character.status (?row ! ?c) = NotGuessed"
    using assms(1) c dims(3) unfolding board_inv_def by blast
  then have blank: "(?row ! ?c)\<lparr>character := CHR '' ''\<rparr> = blank_character"
    by (simp add: blank_character_iff)
  have "wf_app a'" using wf assms(2) by (rule key_backspace_ok)
  with assms(1) dims True blank c show ?thesis
    unfolding a' by (auto simp: board_inv_def nth_list_update)
next
  case False
  with assms show ?thesis by (simp add: key_backspace_def)
qed

lemma board_inv_key_enter_commit:
  assumes "board_inv a" "commits a" "5 \<le> length (word a)"
  shows "board_inv (a\<lparr>characters := (characters a)[cur_row a :=
            mark_cells (word a) [0..<5] (characters a ! cur_row a)],
          position := (Suc (cur_row a), 0)\<rparr>)"
proof -
  have wf: "wf_app a" using assms(1) by (simp add: board_inv_def)
  note dims = wf_app_dims [OF wf]
  have row: "cur_row a < 5" using assms(2) by (simp add: commits_def)
  have "wf_app (a\<lparr>characters := (characters a)[cur_row a :=
            mark_cells (word a) [0..<5] (characters a ! cur_row a)],
          position := (Suc (cur_row a), 0)\<rparr>)"
    using wf row commit_row_grid(2) [of "characters a" "cur_row a" "word a"] assms(3)
    by (simp add: wf_app_def)
  moreover have "map character.status (mark_cells (word a) [0..<5] (characters a ! cur_row a)) =
      eval_guess (word a) (row_string (characters a ! cur_row a))"
    using dims by (simp add: status_mark_cells)
  ultimately show ?thesis
    using assms(1) dims row
    by (auto simp: board_inv_def nth_list_update less_Suc_eq blank_character_def)
qed

lemma board_inv_key_enter:
  assumes "board_inv a" "key_enter a = Inr a'"
  shows "board_inv a'"
proof -
  have wf: "wf_app a" using assms(1) by (simp add: board_inv_def)
  show ?thesis
  proof (cases "commits a")
    case True
    then have "5 \<le> length (word a)"
      using wf assms(2) by (cases "5 \<le> length (word a)") (simp_all add: key_enter_commit_short)
    with True wf assms(2) have "a' = a\<lparr>characters := (characters a)[cur_row a :=
            mark_cells (word a) [0..<5] (characters a ! cur_row a)],
          position := (Suc (cur_row a), 0)\<rparr>"
      by (simp add: key_enter_commit)
    with assms(1) True \<open>5 \<le> length (word a)\<close> show ?thesis
      by (simp add: board_inv_key_enter_commit)
  next
    case False
    with wf assms show ?thesis by (auto simp: key_enter_no_commit split: if_splits)
  qed
qed

lemma board_inv_handle_event:
  "board_inv a \<Longrightarrow> handle_event src r a ev = Inr (Continue a') \<Longrightarrow> board_inv a'"
  by (auto simp: dispatch_defs continue_with_def bind_res_def board_inv_app_default
      dest: board_inv_key_char board_inv_key_backspace board_inv_key_enter
      split: event.splits keycode.splits gamestatus.splits sum.splits)

lemma handle_event_wf:
  "wf_app a \<Longrightarrow> handle_event src r a ev = Inr (Continue a') \<Longrightarrow> wf_app a'"
  by (cases ev; cases "app.status a")
     (auto simp: dispatch_defs continue_with_def bind_res_def dest: op_facts
       split: keycode.splits sum.splits)

lemma reachable_wf: "reachable src a \<Longrightarrow> wf_app a"
  by (induction rule: reachable.induct) (auto dest: app_default_wf handle_event_wf)

lemma reachable_run_app:
  "reachable src a \<Longrightarrow> run_app src rs a es = Blocked a' \<Longrightarrow> reachable src a'"
proof (induction es arbitrary: rs a)
  case Nil
  then show ?case by simp
next
  case (Cons x es)
  then show ?case
    by (cases x) (auto intro: reachable.step split: sum.splits flow.splits)
qed

lemma word_key_ops:
  "key_backspace a = Inr a' \<Longrightarrow> word a' = word a"
  "key_char c a = Inr a' \<Longrightarrow> word a' = word a"
  "key_enter a = Inr a' \<Longrightarrow> word a' = word a"
  by (auto simp: key_defs bind_res_def split: if_splits sum.splits)

lemma app_default_word:
  "app_default src r = Inr a \<Longrightarrow> \<exists>s. src = Some s \<and> word a \<in> set (words_of_file s)"
  by (cases src) (auto simp: app_default_Some fresh_app_def)

lemma word_handle_event:
  "handle_event src r a ev = Inr (Continue a') \<Longrightarrow> word a' = word a \<or> app_default src r = Inr a'"
  by (auto simp: dispatch_defs continue_with_def bind_res_def dest: word_key_ops
      split: event.splits keycode.splits gamestatus.splits sum.splits)

lemma to_upper_first_not_lower: "\<not> is_lower_range (to_upper_first c)"
  using of_char_bound [of c]
  by (auto simp: to_upper_first_def is_lower_range_def Let_def)

lemma lower_free_update:
  assumes "lower_free b" "r < length b"
    and "\<forall>x \<in> set (row_string row). x \<in> set (row_string (b ! r)) \<or> \<not> is_lower_range x"
  shows "lower_free (b[r := row])"
  using assms unfolding lower_free_def
  by (metis insertE nth_mem set_update_subset_insert subsetD)

lemma lower_free_key_char:
  assumes "wf_app a" "lower_free (characters a)" "key_char c a = Inr a'"
  shows "lower_free (characters a')"
proof (cases "cur_col a < 5")
  case True
  note dims = wf_app_dims [OF assms(1)]
  have r: "cur_row a < length (characters a)" using dims(1,3) by simp
  let ?row = "characters a ! cur_row a"
  have "characters a' = (characters a)[cur_row a := ?row[cur_col a := (?row ! cur_col a)\<lparr>character := to_upper_first c\<rparr>]]"
    using assms(3) dims True by (auto simp: key_char_def update2_checked_def)
  moreover have "\<forall>x \<in> set (row_string (?row[cur_col a := (?row ! cur_col a)\<lparr>character := to_upper_first c\<rparr>])).
      x \<in> set (row_string ?row) \<or> \<not> is_lower_range x"
    using to_upper_first_not_lower [of c] by (metis insertE row_string_update_char set_update_subset_insert subsetD)
  ultimately show ?thesis using assms(2) r lower_free_update by presburger
next
  case False
  with assms show ?thesis by (simp add: key_char_def)
qed

lemma lower_free_key_backspace:
  assumes "wf_app a" "lower_free (characters a)" "key_backspace a = Inr a'"
  shows "lower_free (characters a')"
proof (cases "1 \<le> cur_col a")
  case True
  note dims = wf_app_dims [OF assms(1)]
  have r: "cur_row a < length (characters a)" using dims(1,3) by simp
  let ?row = "characters a ! cur_row a" and ?c = "cur_col a - 1"
  have sp: "\<not> is_lower_range CHR '' ''" by (simp add: is_lower_range_def)
  have "?c < 5" using dims(4) True by linarith
  then have "characters a' = (characters a)[cur_row a := ?row[?c := (?row ! ?c)\<lparr>character := CHR '' ''\<rparr>]]"
    using assms(3) dims True by (auto simp: key_backspace_def update2_checked_def)
  moreover have "\<forall>x \<in> set (row_string (?row[?c := (?row ! ?c)\<lparr>character := CHR '' ''\<rparr>])).
      x \<in> set (row_string ?row) \<or> \<not> is_lower_range x"
    using sp by (metis insertE row_string_update_char set_update_subset_insert subsetD)
  ultimately show ?thesis using assms(2) r lower_free_update by presburger
next
  case False
  with assms show ?thesis by (simp add: key_backspace_def)
qed

lemma lower_free_key_enter:
  assumes "wf_app a" "lower_free (characters a)" "key_enter a = Inr a'"
  shows "lower_free (characters a')"
proof (cases "commits a")
  case True
  have "5 \<le> length (word a)"
    using True assms(1,3) by (cases "5 \<le> length (word a)") (simp_all add: key_enter_commit_short)
  with True assms(1,3) have "characters a' = (characters a)[cur_row a :=
      mark_cells (word a) [0..<5] (characters a ! cur_row a)]"
    by (auto simp: key_enter_commit)
  moreover have "cur_row a < length (characters a)" using assms(1) by simp
  ultimately show ?thesis using assms(2) lower_free_update by simp
next
  case False
  with assms show ?thesis by (auto simp: key_enter_no_commit split: if_splits)
qed

lemma lower_free_default: "lower_free default_characters"
  by (simp add: lower_free_def default_characters_def row_string_def is_lower_range_def)

lemma lower_free_app_default: "app_default src r = Inr a \<Longrightarrow> lower_free (characters a)"
  by (cases src) (auto simp: app_default_Some fresh_app_def lower_free_default)

lemma lower_free_handle_event:
  "wf_app a \<Longrightarrow> lower_free (characters a) \<Longrightarrow> handle_event src r a ev = Inr (Continue a') \<Longrightarrow>
   lower_free (characters a')"
  by (auto simp: dispatch_defs continue_with_def bind_res_def lower_free_app_default
      dest: lower_free_key_char lower_free_key_backspace lower_free_key_enter
      split: event.splits keycode.splits gamestatus.splits sum.splits)

lemma reachable_lower_free: "reachable src a \<Longrightarrow> board_inv a \<and> lower_free (characters a)"
proof (induction rule: reachable.induct)
  case (start r a)
  then show ?case by (simp add: board_inv_app_default lower_free_app_default)
next
  case (step a r ev a')
  from step.IH have inv: "board_inv a" and lf: "lower_free (characters a)" by auto
  have wf: "wf_app a" using inv by (simp add: board_inv_def)
  show ?case
    using board_inv_handle_event [OF inv step.hyps(2)] lower_free_handle_event [OF wf lf step.hyps(2)]
    by simp
qed

lemma reachable_no_somewhere_else:
  assumes "reachable src a" and "\<forall>x \<in> set (word a). is_lower_range x"
  shows "\<forall>i < 6. \<forall>j < 5. character.status (characters a ! i ! j) \<noteq> SomewhereElse"
proof (intro allI impI)
  fix i j :: nat assume i: "i < 6" and j: "j < 5"
  have inv: "board_inv a" and lf: "lower_free (characters a)" using reachable_lower_free [OF assms(1)] by auto
  have wf: "wf_app a" using inv by (simp add: board_inv_def)
  show "character.status (characters a ! i ! j) \<noteq> SomewhereElse"
  proof (cases "i < cur_row a")
    case True
    let ?row = "characters a ! i"
    have len: "length ?row = 5" using wf i by simp
    have "map character.status ?row = eval_guess (word a) (row_string ?row)"
      using inv True by (simp add: board_inv_def)
    then have "map character.status ?row ! j = eval_guess (word a) (row_string ?row) ! j" by simp
    then have st: "character.status (?row ! j) = value_status (row_string ?row ! j) (word a) (word a ! j)"
      using len j by (simp add: eval_guess_def)
    have "row_string ?row ! j \<in> set (row_string ?row)" using len j by simp
    moreover have "?row \<in> set (characters a)" using wf i by simp
    ultimately have "\<not> is_lower_range (row_string ?row ! j)" using lf by (auto simp: lower_free_def)
    then have "row_string ?row ! j \<notin> set (word a)" using assms(2) by blast
    then show ?thesis using st by (simp add: value_status_def)
  next
    case False
    with inv i j show ?thesis by (simp add: board_inv_def)
  qed
qed

text \<open>C3: in every reachable state the board is 6 by 5 with the cursor inside it, the rows
  above the cursor show the colours \<open>value\<close> gives their letters against the secret, no
  other cell is coloured, the rows below the cursor are blank and the current row is
  blank right of the cursor.\<close>

theorem reachable_board_inv:
  assumes "reachable src a"
  shows "board_inv a"
  using assms
proof (induction rule: reachable.induct)
  case (start r a)
  then show ?case by (rule board_inv_app_default)
next
  case (step a r ev a')
  then show ?case by (blast intro: board_inv_handle_event)
qed

theorem reachable_board_inv_witness:
  "reachable (Some ''crane'') (fresh_app ''crane'') \<and> board_inv (fresh_app ''crane'')"
proof -
  have r: "reachable (Some ''crane'') (fresh_app ''crane'')"
    using app_default_crane by (rule reachable.start)
  with reachable_board_inv [OF r] show ?thesis by simp
qed

text \<open>C9: the secret of every reachable state is a word of the pool read from \<open>words.txt\<close>,
  also after any number of restarts; no state is reachable when the file cannot be read.\<close>

theorem reachable_secret_in_pool:
  assumes "reachable src a"
  shows "\<exists>s. src = Some s \<and> word a \<in> set (words_of_file s)"
  using assms
proof (induction rule: reachable.induct)
  case (start r a)
  then show ?case by (rule app_default_word)
next
  case (step a r ev a')
  then show ?case using word_handle_event [OF step.hyps(2)] by (auto dest: app_default_word)
qed

theorem reachable_secret_in_pool_witness:
  "reachable (Some ''crane'') (fresh_app ''crane'') \<and> word (fresh_app ''crane'') \<in> set (words_of_file ''crane'')"
proof -
  have r: "reachable (Some ''crane'') (fresh_app ''crane'')"
    using app_default_crane by (rule reachable.start)
  with reachable_secret_in_pool [OF r] show ?thesis by simp
qed

end
