(* ===== verification/View.thy ===== *)
theory View
  imports Reach Runs "HOL-Library.Word"
begin

text \<open>
  What \<open>fn ui\<close> (\<open>src/src/main.rs\<close>, lines 157--243) puts on the screen, without the
  layout arithmetic: the title line, and either the 6 by 5 grid of cells (each its
  letter and a colour chosen from its status) while the game is Ongoing, or the text of
  the Lost or Won screen.  \<open>digits_of\<close> is the decimal formatting of a \<open>usize\<close> by
  \<open>format!\<close>.  The Won screen reports \<open>position[0] + 1\<close> guesses; the theorems show that
  this is the number of the attempt that won (at most 6, without \<open>usize\<close> wrap-around),
  and that the colours of the grid are the evaluation of the committed guesses and white
  everywhere else; with a lower-case secret no cell is ever yellow.  \<open>frames\<close> is the
  sequence of frames the loop of \<open>run_app\<close> draws, one per iteration.
\<close>

datatype color = Green | Red | Yellow | White

datatype screen = BoardScreen "(string \<times> color) list list" | TextScreen string

record frame =
  title :: string
  body :: screen

definition status_color :: "character_status \<Rightarrow> color" where
  "status_color s =
     (case s of Correct \<Rightarrow> Green | Incorrect \<Rightarrow> Red | SomewhereElse \<Rightarrow> Yellow | NotGuessed \<Rightarrow> White)"

fun digits_of :: "nat \<Rightarrow> string" where
  "digits_of n =
     (if n < 10 then [char_of (48 + n)] else digits_of (n div 10) @ [char_of (48 + n mod 10)])"

definition cell_view :: "character \<Rightarrow> string \<times> color" where
  \<comment> \<open>\<open>characters[i][n].character.to_string()\<close> and the colour of its status\<close>
  "cell_view c = ([character c], status_color (character.status c))"

definition ui :: "app \<Rightarrow> frame" where
  "ui a =
     \<lparr>title = ''FIMSHDLE WORD : '' @ word a @ '' message : '' @ message a,
      body = (case app.status a of
          Ongoing \<Rightarrow> BoardScreen (map (\<lambda>i. map (\<lambda>n. cell_view (characters a ! i ! n)) [0..<5]) [0..<6])
        | Lost \<Rightarrow> TextScreen (''You lost the word was  : '' @ word a @ '' press enter to restart'')
        | Won \<Rightarrow> TextScreen (''You won with '' @ digits_of (cur_row a + 1) @
                             '' guesses press enter to restart''))\<rparr>"

text \<open>The frames the loop of \<open>run_app\<close> asks the terminal to draw: at the top of every
  iteration \<open>terminal.draw(|f| ui(f, &app))\<close> with the current state, then the event is
  read and handled.  When the inputs are used up the last frame is the one on screen
  while the loop waits for the next event.\<close>

fun frames :: "string option \<Rightarrow> (nat \<Rightarrow> nat) \<Rightarrow> app \<Rightarrow> io_input list \<Rightarrow> frame list" where
  "frames src rs a [] = [ui a]"
| "frames src rs a (IoFail # _) = [ui a]"
| "frames src rs a (Ev ev # es) =
     ui a # (case handle_event src (rs 0) a ev of
               Inr (Continue a') \<Rightarrow> frames src (\<lambda>k. rs (Suc k)) a' es
             | _ \<Rightarrow> [])"

declare digits_of.simps [simp del]

lemma digits_of_small: "n < 10 \<Longrightarrow> digits_of n = [char_of (48 + n)]"
  by (subst digits_of.simps) simp

lemma status_color_White_iff [simp]: "status_color s = White \<longleftrightarrow> s = NotGuessed"
  by (cases s) (simp_all add: status_color_def)

lemma frames_ne [simp]: "frames src rs a es \<noteq> []"
  by (induction src rs a es rule: frames.induct) simp_all

lemma frames_last:
  "run_app src rs a es = Blocked a' \<Longrightarrow> last (frames src rs a es) = ui a'"
proof (induction es arbitrary: rs a)
  case Nil
  then show ?case by simp
next
  case (Cons x es)
  then show ?case
    by (cases x) (auto split: sum.splits flow.splits)
qed

lemma usize_succ_small: "n < 6 \<Longrightarrow> unat (word_of_nat n + 1 :: 64 word) = n + 1"
proof -
  assume "n < 6"
  then have "Suc n mod 2 ^ LENGTH(64) = Suc n" by simp
  moreover have "word_of_nat n + 1 = (word_of_nat (Suc n) :: 64 word)" by simp
  ultimately show ?thesis by (simp only: unat_of_nat)
qed

section \<open>What the screen shows\<close>

text \<open>C11: winning with the guess on row \<open>r\<close> shows the Won screen with the single digit
  \<open>r + 1\<close>, the number of the attempt (1 to 6).\<close>

theorem won_screen_counts_attempts:
  assumes "wf_app a" "app.status a = Ongoing" "cur_col a = 5"
    and "str_to_lowercase (row_string (characters a ! cur_row a)) = str_to_lowercase (word a)"
  shows "\<exists>a'. handle_key f r a Enter = Inr (Continue a') \<and>
           body (ui a') = TextScreen (''You won with '' @ [char_of (49 + cur_row a)] @
                                      '' guesses press enter to restart'')"
proof -
  have "\<not> commits a" using assms(4) by (simp add: commits_def)
  then have "handle_key f r a Enter = Inr (Continue (a\<lparr>message := ''jeromes'', app.status := Won\<rparr>))"
    using assms by (simp add: dispatch_defs key_enter_no_commit)
  moreover have "cur_row a + 1 < 10" using wf_app_cursor(1) [OF assms(1)] by linarith
  ultimately show ?thesis by (simp add: ui_def digits_of_small)
qed

theorem won_screen_counts_attempts_witness:
  "\<exists>a'. handle_key None 0 ((fresh_app ''crane'')\<lparr>characters := default_characters[2 :=
      map (\<lambda>c. \<lparr>character = c, character.status = NotGuessed\<rparr>) ''CRANE''], position := (2, 5)\<rparr>) Enter =
      Inr (Continue a') \<and>
    body (ui a') = TextScreen ''You won with 3 guesses press enter to restart''"
proof -
  let ?a = "(fresh_app ''crane'')\<lparr>characters := default_characters[2 :=
      map (\<lambda>c. \<lparr>character = c, character.status = NotGuessed\<rparr>) ''CRANE''], position := (2, 5)\<rparr>"
  have h: "wf_app ?a" "app.status ?a = Ongoing" "cur_col ?a = 5"
    "str_to_lowercase (row_string (characters ?a ! cur_row ?a)) = str_to_lowercase (word ?a)"
    by (simp_all add: wf_app_def grid_update_row eval_simps)
  from won_screen_counts_attempts [OF h, of None 0] show ?thesis
    by (simp add: char_of_nat_bits)
qed

text \<open>C16: while the game is Ongoing in a state with the board discipline, the grid shows
  every cell's letter; a cell of a row above the cursor is Green when its letter, lower-cased,
  is the secret's letter in that column, otherwise Yellow when the letter as typed occurs in
  the secret, otherwise Red; every cell of the cursor's row and below is White.\<close>

theorem ui_board_colours:
  assumes "board_inv a" "app.status a = Ongoing"
  shows "body (ui a) = BoardScreen (map (\<lambda>i. map (\<lambda>n.
            let x = character (characters a ! i ! n) in
            ([x], if cur_row a \<le> i then White
                  else if word a ! n = to_lower_char x then Green
                  else if x \<in> set (word a) then Yellow
                  else Red)) [0..<5]) [0..<6])"
proof -
  have cell: "cell_view (characters a ! i ! n) =
      (let x = character (characters a ! i ! n) in
       ([x], if cur_row a \<le> i then White
             else if word a ! n = to_lower_char x then Green
             else if x \<in> set (word a) then Yellow
             else Red))" if i: "i < 6" and n: "n < 5" for i n
  proof (cases "i < cur_row a")
    case True
    have wf: "wf_app a" using assms(1) by (simp add: board_inv_def)
    from True assms(1) have "map character.status (characters a ! i) =
        eval_guess (word a) (row_string (characters a ! i))" by (simp add: board_inv_def)
    then have "character.status (characters a ! i ! n) =
        value_status (character (characters a ! i ! n)) (word a) (word a ! n)"
      using wf i n by (metis (no_types, lifting) nth_map wf_app_dims(2) eval_guess_def row_string_def diff_zero length_upt nth_upt add_0)
    with True show ?thesis by (simp add: cell_view_def status_color_def value_status_def Let_def)
  next
    case False
    with assms(1) i n have "character.status (characters a ! i ! n) = NotGuessed"
      by (simp add: board_inv_def)
    with False show ?thesis by (simp add: cell_view_def status_color_def Let_def)
  qed
  from assms(2) show ?thesis by (simp add: ui_def cell cong: map_cong)
qed

theorem ui_board_colours_witness:
  "body (ui ((fresh_app ''crane'')\<lparr>characters := default_characters[0 :=
      [\<lparr>character = CHR ''T'', character.status = Incorrect\<rparr>, \<lparr>character = CHR ''R'', character.status = Correct\<rparr>,
       \<lparr>character = CHR ''A'', character.status = Correct\<rparr>, \<lparr>character = CHR ''C'', character.status = Incorrect\<rparr>,
       \<lparr>character = CHR ''E'', character.status = Correct\<rparr>]], position := (1, 0)\<rparr>)) =
   BoardScreen ([(''T'', Red), (''R'', Green), (''A'', Green), (''C'', Red), (''E'', Green)] #
                replicate 5 (replicate 5 ('' '', White)))"
proof -
  let ?r = "map (\<lambda>c. \<lparr>character = c, character.status = NotGuessed\<rparr>) ''TRACE''"
  let ?s = "(fresh_app ''crane'')\<lparr>characters := default_characters[0 := ?r], position := (0, 5)\<rparr>"
  have s: "board_inv ?s"
    unfolding board_inv_def
  proof (intro conjI)
    show "wf_app ?s" by (simp add: wf_app_def grid_update_row)
  qed (auto simp: default_characters_def nth_list_update less_Suc_eq numeral_eq_Suc)
  have r0: "characters ?s ! 0 = ?r" by (simp add: default_characters_def)
  have "str_to_lowercase ''TRACE'' \<noteq> str_to_lowercase ''crane''" by (simp add: eval_simps)
  then have c: "commits ?s" using r0 by (simp add: commits_def row_string_def)
  have m: "mark_cells ''crane'' [0..<5] ?r =
      [\<lparr>character = CHR ''T'', character.status = Incorrect\<rparr>, \<lparr>character = CHR ''R'', character.status = Correct\<rparr>,
       \<lparr>character = CHR ''A'', character.status = Correct\<rparr>, \<lparr>character = CHR ''C'', character.status = Incorrect\<rparr>,
       \<lparr>character = CHR ''E'', character.status = Correct\<rparr>]"
    by (simp add: mark_cells_upto upt_rec mark_cell_def eval_simps)
  have inv: "board_inv ((fresh_app ''crane'')\<lparr>characters := default_characters[0 :=
      [\<lparr>character = CHR ''T'', character.status = Incorrect\<rparr>, \<lparr>character = CHR ''R'', character.status = Correct\<rparr>,
       \<lparr>character = CHR ''A'', character.status = Correct\<rparr>, \<lparr>character = CHR ''C'', character.status = Incorrect\<rparr>,
       \<lparr>character = CHR ''E'', character.status = Correct\<rparr>]], position := (1, 0)\<rparr>)"
    using board_inv_key_enter_commit [OF s c] r0 m by simp
  have low: "map to_lower_char ''TRACE'' = ''trace''" by (simp add: eval_simps)
  show ?thesis
    using ui_board_colours [OF inv] low
    by (simp add: default_characters_def blank_character_def upt_rec numeral_eq_Suc)
qed

text \<open>C14: typing the secret (in any letter case) at the start of a row and pressing Enter
  leaves on screen the Won text with the number of that attempt: the loop's last frame,
  drawn by \<open>ui\<close> from the state the key handler produced.\<close>

theorem secret_typed_shows_won:
  assumes "wf_app a" "app.status a = Ongoing" "cur_col a = 0" "length g = 5"
    and "str_to_lowercase (map to_upper_first g) = str_to_lowercase (word a)"
  shows "body (last (frames src rs a (type_guess g))) =
           TextScreen (''You won with '' @ [char_of (49 + cur_row a)] @
                       '' guesses press enter to restart'')"
proof -
  obtain a' rs' where r: "run_app src rs a (type_guess g @ []) = run_app src rs' a' []"
    and wf: "wf_app a'" and st: "app.status a' = Won" and row: "cur_row a' = cur_row a"
    using run_right_guess [OF assms, of src rs "[]"] by blast
  have "last (frames src rs a (type_guess g)) = ui a'"
    using r by (intro frames_last) simp
  moreover have "cur_row a' + 1 < 10" using wf_app_cursor(1) [OF wf] by linarith
  ultimately show ?thesis using st row by (simp add: ui_def digits_of_small)
qed

theorem secret_typed_shows_won_witness:
  "body (last (frames None (\<lambda>_. 0) (fresh_app ''crane'') (type_guess ''Crane''))) =
     TextScreen ''You won with 1 guesses press enter to restart''"
proof -
  have h: "wf_app (fresh_app ''crane'')" "app.status (fresh_app ''crane'') = Ongoing"
    "cur_col (fresh_app ''crane'') = 0" "length ''Crane'' = 5"
    "str_to_lowercase (map to_upper_first ''Crane'') = str_to_lowercase (word (fresh_app ''crane''))"
    by (simp_all add: eval_simps)
  from secret_typed_shows_won [OF h, of None "\<lambda>_. 0"] show ?thesis
    by (simp add: char_of_nat_bits)
qed

text \<open>C15: in every reachable Won state the count \<open>position[0] + 1\<close> that the Won screen
  prints is between 1 and 6, the \<open>usize\<close> addition does not wrap (64-bit \<open>usize\<close>), and
  the screen shows it as the single digit of that count.\<close>

theorem won_count_bounds:
  assumes "reachable src a" "app.status a = Won"
  shows "cur_row a + 1 \<le> 6 \<and> unat (word_of_nat (cur_row a) + 1 :: 64 word) = cur_row a + 1 \<and>
         body (ui a) = TextScreen (''You won with '' @ [char_of (49 + cur_row a)] @
                                   '' guesses press enter to restart'')"
proof -
  have row: "cur_row a < 6" using wf_app_cursor(1) [OF reachable_wf [OF assms(1)]] .
  then have "cur_row a + 1 < 10" by linarith
  with assms(2) have "body (ui a) = TextScreen (''You won with '' @ [char_of (49 + cur_row a)] @
                                   '' guesses press enter to restart'')"
    by (simp add: ui_def digits_of_small)
  with row usize_succ_small [OF row] show ?thesis by simp
qed

theorem won_count_bounds_witness:
  "\<exists>a. reachable (Some ''crane'') a \<and> app.status a = Won \<and>
     body (ui a) = TextScreen ''You won with 1 guesses press enter to restart''"
proof -
  have h: "wf_app (fresh_app ''crane'')" "app.status (fresh_app ''crane'') = Ongoing"
    "cur_col (fresh_app ''crane'') = 0" "length ''crane'' = 5"
    "str_to_lowercase (map to_upper_first ''crane'') = str_to_lowercase (word (fresh_app ''crane''))"
    by (simp_all add: eval_simps)
  obtain a rs' where r: "run_app (Some ''crane'') (\<lambda>_. 0) (fresh_app ''crane'') (type_guess ''crane'' @ []) =
      run_app (Some ''crane'') rs' a []" and won: "app.status a = Won"
    and row: "cur_row a = cur_row (fresh_app ''crane'')"
    using run_right_guess [OF h, of "Some ''crane''" "\<lambda>_. 0" "[]"] by blast
  have r0: "reachable (Some ''crane'') (fresh_app ''crane'')"
    using app_default_crane by (rule reachable.start)
  have reach: "reachable (Some ''crane'') a"
    using r by (intro reachable_run_app [OF r0, of "\<lambda>_. 0" "type_guess ''crane''"]) simp
  from won_count_bounds [OF reach won] row reach won show ?thesis
    by (auto simp: char_of_nat_bits)
qed

text \<open>C17: with a secret made of lower-case letters (the usual word list), no reachable
  screen ever shows a yellow cell: typed letters are stored upper-cased and the
  membership test of \<open>value\<close> is case-sensitive, so the SomewhereElse colour of the
  specification's "present elsewhere" never appears.\<close>

theorem never_yellow_on_screen:
  assumes "reachable src a" and "\<forall>x \<in> set (word a). is_lower_range x"
    and "body (ui a) = BoardScreen cells"
  shows "\<forall>(s, c) \<in> set (concat cells). c \<noteq> Yellow"
proof -
  have st: "app.status a = Ongoing"
    using assms(3) by (cases "app.status a") (simp_all add: ui_def)
  then have cells: "cells = map (\<lambda>i. map (\<lambda>n. cell_view (characters a ! i ! n)) [0..<5]) [0..<6]"
    using assms(3) by (simp add: ui_def)
  have "\<forall>i < 6. \<forall>j < 5. character.status (characters a ! i ! j) \<noteq> SomewhereElse"
    using reachable_no_somewhere_else [OF assms(1,2)] .
  moreover have "status_color s = Yellow \<longleftrightarrow> s = SomewhereElse" for s
    by (cases s) (simp_all add: status_color_def)
  ultimately show ?thesis unfolding cells by (auto simp: cell_view_def)
qed

theorem never_yellow_on_screen_witness:
  "\<exists>a cells. reachable (Some ''crane'') a \<and> cur_row a = 1 \<and> body (ui a) = BoardScreen cells \<and>
     (\<forall>(s, c) \<in> set (concat cells). c \<noteq> Yellow)"
proof -
  have h: "wf_app (fresh_app ''crane'')" "app.status (fresh_app ''crane'') = Ongoing"
    "cur_col (fresh_app ''crane'') = 0" "cur_row (fresh_app ''crane'') < 5"
    "wrong_guess (word (fresh_app ''crane'')) ''trace''" "5 \<le> length (word (fresh_app ''crane''))"
    by (simp_all add: wrong_guess_def eval_simps)
  obtain a rs' where r: "run_app (Some ''crane'') (\<lambda>_. 0) (fresh_app ''crane'') (type_guess ''trace'' @ []) =
      run_app (Some ''crane'') rs' a []" and st: "app.status a = Ongoing"
    and row: "cur_row a = Suc (cur_row (fresh_app ''crane''))" and w: "word a = word (fresh_app ''crane'')"
    using run_wrong_guess_commit [OF h, of "Some ''crane''" "\<lambda>_. 0" "[]"] by blast
  have r0: "reachable (Some ''crane'') (fresh_app ''crane'')"
    using app_default_crane by (rule reachable.start)
  have reach: "reachable (Some ''crane'') a"
    using r by (intro reachable_run_app [OF r0, of "\<lambda>_. 0" "type_guess ''trace''"]) simp
  have low: "\<forall>x \<in> set (word a). is_lower_range x" using w by (simp add: is_lower_range_def)
  let ?cells = "map (\<lambda>i. map (\<lambda>n. cell_view (characters a ! i ! n)) [0..<5]) [0..<6]"
  have b: "body (ui a) = BoardScreen ?cells" using st by (simp add: ui_def)
  from never_yellow_on_screen [OF reach low b] reach row b show ?thesis by auto
qed

end
