(* ===== verification/Terminal.thy ===== *)
theory Terminal
  imports Game
begin

text \<open>
  \<open>fn main\<close> (\<open>src/src/main.rs\<close>, lines 64--85): the terminal set-up, the game, and the
  restore.  The terminal's global mode is a record of the three switches \<open>main\<close> turns
  on and off (raw mode, the alternate screen, mouse capture).  Each crossterm call is an
  \<open>io_step\<close>; which calls return \<open>Err\<close> is a parameter \<open>fl\<close> of the run, and a call
  that fails leaves the terminal as it was.  The \<open>?\<close> operator returns at the first
  failing call, so a sequence of calls ends in the state reached so far together with
  the failing call.  A panic (in \<open>App::default\<close> or inside \<open>run_app\<close>) unwinds out of
  \<open>main\<close> without running any of the restoring calls.  \<open>run_app\<close>'s result \<open>res\<close> is never
  inspected.  A run whose inputs are used up is still waiting in \<open>event::read\<close>
  (\<open>Running\<close>).
\<close>

record terminal =
  raw_mode :: bool
  alt_screen :: bool
  mouse_capture :: bool

datatype io_step =
    EnableRawMode | EnterAltScreen | EnableMouse | NewTerminal
  | DisableRawMode | LeaveAltScreen | DisableMouse | ShowCursor

type_synonym io_faults = "io_step \<Rightarrow> bool"

datatype main_exit = MainOk | MainErr io_step | MainPanic rust_error

datatype main_outcome = Exited main_exit terminal | Running terminal

definition io_effect :: "io_step \<Rightarrow> terminal \<Rightarrow> terminal" where
  "io_effect s t =
     (case s of
        EnableRawMode \<Rightarrow> t\<lparr>raw_mode := True\<rparr>
      | EnterAltScreen \<Rightarrow> t\<lparr>alt_screen := True\<rparr>
      | EnableMouse \<Rightarrow> t\<lparr>mouse_capture := True\<rparr>
      | DisableRawMode \<Rightarrow> t\<lparr>raw_mode := False\<rparr>
      | LeaveAltScreen \<Rightarrow> t\<lparr>alt_screen := False\<rparr>
      | DisableMouse \<Rightarrow> t\<lparr>mouse_capture := False\<rparr>
      | _ \<Rightarrow> t)"

text \<open>A sequence of calls each followed by \<open>?\<close>: the state reached and the failing call.\<close>

fun run_steps :: "io_faults \<Rightarrow> io_step list \<Rightarrow> terminal \<Rightarrow> terminal \<times> io_step option" where
  "run_steps fl [] t = (t, None)"
| "run_steps fl (s # ss) t = (if fl s then (t, Some s) else run_steps fl ss (io_effect s t))"

definition setup_steps :: "io_step list" where
  \<comment> \<open>\<open>enable_raw_mode()?; execute!(stdout, EnterAlternateScreen, EnableMouseCapture)?;
      Terminal::new(backend)?\<close>\<close>
  "setup_steps = [EnableRawMode, EnterAltScreen, EnableMouse, NewTerminal]"

definition restore_steps :: "io_step list" where
  \<comment> \<open>\<open>disable_raw_mode()?; execute!(.., LeaveAlternateScreen, DisableMouseCapture)?;
      terminal.show_cursor()?\<close>\<close>
  "restore_steps = [DisableRawMode, LeaveAltScreen, DisableMouse, ShowCursor]"

text \<open>What \<open>main\<close> does with the result of \<open>run_app\<close> (\<open>res\<close>, never inspected): a panic
  unwinds, anything else goes on to the restoring calls.\<close>

definition main_finish :: "io_faults \<Rightarrow> terminal \<Rightarrow> run_result \<Rightarrow> main_outcome" where
  "main_finish fl t1 res =
     (case res of
        Blocked _ \<Rightarrow> Running t1
      | Panicked e \<Rightarrow> Exited (MainPanic e) t1
      | _ \<Rightarrow>
          (case run_steps fl restore_steps t1 of
             (t2, Some s) \<Rightarrow> Exited (MainErr s) t2
           | (t2, None) \<Rightarrow> Exited MainOk t2))"

definition main_run :: "io_faults \<Rightarrow> string option \<Rightarrow> nat \<Rightarrow> (nat \<Rightarrow> nat) \<Rightarrow> io_input list \<Rightarrow>
    terminal \<Rightarrow> main_outcome" where
  "main_run fl file r rs inputs t =
     (case run_steps fl setup_steps t of
        (t1, Some s) \<Rightarrow> Exited (MainErr s) t1
      | (t1, None) \<Rightarrow>
          (case app_default file r of
             Inl e \<Rightarrow> Exited (MainPanic e) t1
           | Inr a \<Rightarrow> main_finish fl t1 (run_app file rs a inputs)))"

definition restored :: "terminal \<Rightarrow> bool" where
  "restored t \<longleftrightarrow> \<not> raw_mode t \<and> \<not> alt_screen t \<and> \<not> mouse_capture t"

definition cooked :: terminal where
  "cooked = \<lparr>raw_mode = False, alt_screen = False, mouse_capture = False\<rparr>"

definition no_faults :: io_faults where
  "no_faults s = False"

lemma io_effect_simps [simp]:
  "io_effect EnableRawMode t = t\<lparr>raw_mode := True\<rparr>"
  "io_effect EnterAltScreen t = t\<lparr>alt_screen := True\<rparr>"
  "io_effect EnableMouse t = t\<lparr>mouse_capture := True\<rparr>"
  "io_effect NewTerminal t = t"
  "io_effect DisableRawMode t = t\<lparr>raw_mode := False\<rparr>"
  "io_effect LeaveAltScreen t = t\<lparr>alt_screen := False\<rparr>"
  "io_effect DisableMouse t = t\<lparr>mouse_capture := False\<rparr>"
  "io_effect ShowCursor t = t"
  by (simp_all add: io_effect_def)

lemma run_steps_ok:
  "(\<forall>s \<in> set ss. \<not> fl s) \<Longrightarrow> run_steps fl ss t = (fold io_effect ss t, None)"
  by (induction ss arbitrary: t) auto

lemma run_steps_fail:
  "run_steps fl ss t = (t', Some s) \<Longrightarrow> fl s \<and> s \<in> set ss"
  by (induction ss arbitrary: t) (auto split: if_splits)

lemma setup_ok:
  "\<forall>s \<in> set setup_steps. \<not> fl s \<Longrightarrow>
   run_steps fl setup_steps t = (t\<lparr>raw_mode := True, alt_screen := True, mouse_capture := True\<rparr>, None)"
  by (simp add: run_steps_ok setup_steps_def)

lemma restore_ok:
  "\<forall>s \<in> set restore_steps. \<not> fl s \<Longrightarrow>
   run_steps fl restore_steps t = (t\<lparr>raw_mode := False, alt_screen := False, mouse_capture := False\<rparr>, None)"
  by (simp add: run_steps_ok restore_steps_def)

lemma restore_result:
  "run_steps fl restore_steps t = (t', None) \<Longrightarrow> restored t'"
  by (auto simp: restore_steps_def restored_def split: if_splits)

lemma setup_result:
  "run_steps fl setup_steps t = (t', None) \<Longrightarrow>
   t' = t\<lparr>raw_mode := True, alt_screen := True, mouse_capture := True\<rparr>"
  by (auto simp: setup_steps_def split: if_splits)


lemma main_run_exited:
  "main_run fl file r rs inputs t = Exited x t' \<Longrightarrow>
   (\<exists>s. x = MainErr s \<and> run_steps fl setup_steps t = (t', Some s)) \<or>
   (\<exists>e. x = MainPanic e \<and> run_steps fl setup_steps t = (t', None)) \<or>
   (\<exists>t1. run_steps fl setup_steps t = (t1, None) \<and>
      (run_steps fl restore_steps t1 = (t', None) \<and> x = MainOk \<or>
       (\<exists>s. run_steps fl restore_steps t1 = (t', Some s) \<and> x = MainErr s)))"
  by (auto simp: main_run_def main_finish_def split: prod.splits option.splits sum.splits run_result.splits)

lemma setup_fail_raw:
  "run_steps fl setup_steps t = (t', Some s) \<Longrightarrow> s \<noteq> EnableRawMode \<Longrightarrow> raw_mode t'"
  by (auto simp: setup_steps_def split: if_splits)

lemma restore_fail_unrestored:
  assumes "run_steps fl setup_steps t = (t1, None)" "run_steps fl restore_steps t1 = (t', Some s)"
    and "s \<noteq> ShowCursor"
  shows "\<not> restored t'"
proof -
  have "t1 = t\<lparr>raw_mode := True, alt_screen := True, mouse_capture := True\<rparr>"
    using assms(1) by (rule setup_result)
  with assms(2,3) show ?thesis
    by (auto simp: restore_steps_def restored_def split: if_splits)
qed

lemma no_faults_steps [simp]: "\<forall>s \<in> set ss. \<not> no_faults s"
  by (simp add: no_faults_def)

section \<open>Exit paths of main\<close>

text \<open>C20: every run of main that returns Ok has restored the terminal: raw mode off, the
  alternate screen left and mouse capture off, whichever calls failed and whatever the game did.\<close>

theorem main_ok_exit_restores:
  assumes "main_run fl file r rs inputs t = Exited MainOk t'"
  shows "restored t'"
  using main_run_exited [OF assms] by (auto dest: restore_result)

theorem main_ok_exit_restores_witness:
  "main_run no_faults (Some ''crane'') 0 (\<lambda>_. 0) [Ev (Key Esc)] cooked = Exited MainOk cooked \<and>
   restored cooked"
proof -
  have h: "main_run no_faults (Some ''crane'') 0 (\<lambda>_. 0) [Ev (Key Esc)] cooked = Exited MainOk cooked"
    by (simp add: main_run_def main_finish_def setup_ok restore_ok app_default_crane handle_event_Esc cooked_def)
  from h main_ok_exit_restores [OF h] show ?thesis by simp
qed

text \<open>C21: a panic (an unreadable \<open>words.txt\<close>, or a run-time error of the game) leaves
  \<open>main\<close> with raw mode, the alternate screen and mouse capture all still on: no restoring
  call runs on the unwinding path.\<close>

theorem main_panic_leaves_terminal:
  assumes "main_run fl file r rs inputs t = Exited (MainPanic e) t'"
  shows "raw_mode t' \<and> alt_screen t' \<and> mouse_capture t'"
  using main_run_exited [OF assms] by (auto dest: setup_result)

theorem main_panic_leaves_terminal_witness:
  "main_run no_faults None 0 (\<lambda>_. 0) [] cooked =
     Exited (MainPanic FileUnreadable) \<lparr>raw_mode = True, alt_screen = True, mouse_capture = True\<rparr> \<and>
   raw_mode \<lparr>raw_mode = True, alt_screen = True, mouse_capture = True\<rparr>"
proof -
  have h: "main_run no_faults None 0 (\<lambda>_. 0) [] cooked =
     Exited (MainPanic FileUnreadable) \<lparr>raw_mode = True, alt_screen = True, mouse_capture = True\<rparr>"
    by (simp add: main_run_def main_finish_def setup_ok app_default_None cooked_def)
  from h main_panic_leaves_terminal [OF h] show ?thesis by simp
qed

text \<open>C22: every error return of main other than a failure of \<open>enable_raw_mode\<close> (nothing
  set up yet) or of the final \<open>show_cursor\<close> (everything already restored) leaves the terminal
  unrestored: the \<open>?\<close> returns before the remaining restoring calls.\<close>

theorem main_error_exit_unrestored:
  assumes "main_run fl file r rs inputs t = Exited (MainErr s) t'"
    and "s \<noteq> EnableRawMode" and "s \<noteq> ShowCursor"
  shows "\<not> restored t'"
  using main_run_exited [OF assms(1)] assms(2,3)
  by (auto simp: restored_def dest: setup_fail_raw restore_fail_unrestored)

theorem main_error_exit_unrestored_witness:
  "main_run (\<lambda>s. s = LeaveAltScreen) (Some ''crane'') 0 (\<lambda>_. 0) [Ev (Key Esc)] cooked =
     Exited (MainErr LeaveAltScreen) \<lparr>raw_mode = False, alt_screen = True, mouse_capture = True\<rparr> \<and>
   \<not> restored \<lparr>raw_mode = False, alt_screen = True, mouse_capture = True\<rparr>"
proof -
  have h: "main_run (\<lambda>s. s = LeaveAltScreen) (Some ''crane'') 0 (\<lambda>_. 0) [Ev (Key Esc)] cooked =
     Exited (MainErr LeaveAltScreen) \<lparr>raw_mode = False, alt_screen = True, mouse_capture = True\<rparr>"
    by (simp add: main_run_def main_finish_def setup_steps_def restore_steps_def app_default_crane handle_event_Esc cooked_def)
  have "LeaveAltScreen \<noteq> EnableRawMode" "LeaveAltScreen \<noteq> ShowCursor" by simp_all
  from h main_error_exit_unrestored [OF h this] show ?thesis by simp
qed

text \<open>C23: an I/O error of the game loop (drawing or reading an event) is swallowed: with
  no failing terminal call, main restores the terminal and returns Ok, as if the player had
  quit.\<close>

theorem main_io_error_reported_ok:
  assumes "\<forall>s. \<not> fl s" "app_default file r = Inr a" "run_app file rs a inputs = IoErr a'"
  shows "main_run fl file r rs inputs t =
           Exited MainOk (t\<lparr>raw_mode := False, alt_screen := False, mouse_capture := False\<rparr>)"
  using assms by (simp add: main_run_def main_finish_def setup_ok restore_ok)

theorem main_io_error_reported_ok_witness:
  "main_run no_faults (Some ''crane'') 0 (\<lambda>_. 0) [IoFail] cooked = Exited MainOk cooked"
proof -
  have h: "\<forall>s. \<not> no_faults s" "app_default (Some ''crane'') 0 = Inr (fresh_app ''crane'')"
    "run_app (Some ''crane'') (\<lambda>_. 0) (fresh_app ''crane'') [IoFail] = IoErr (fresh_app ''crane'')"
    by (simp_all add: no_faults_def app_default_crane)
  from main_io_error_reported_ok [OF h, of cooked] show ?thesis by (simp add: cooked_def)
qed

text \<open>C24: with no failing terminal call and a readable word file, Esc as the first event
  ends the program: main returns Ok with the terminal restored, whatever input follows.\<close>

theorem main_esc_exits:
  assumes "\<forall>s. \<not> fl s" "app_default file r = Inr a"
  shows "main_run fl file r rs (Ev (Key Esc) # es) t =
           Exited MainOk (t\<lparr>raw_mode := False, alt_screen := False, mouse_capture := False\<rparr>)"
  using assms by (simp add: main_run_def main_finish_def setup_ok restore_ok handle_event_Esc)

theorem main_esc_exits_witness:
  "main_run no_faults (Some ''crane'') 0 (\<lambda>_. 0) [Ev (Key Esc), Ev (Key Enter)] cooked = Exited MainOk cooked"
proof -
  have h: "\<forall>s. \<not> no_faults s" "app_default (Some ''crane'') 0 = Inr (fresh_app ''crane'')"
    by (simp_all add: no_faults_def app_default_crane)
  from main_esc_exits [OF h, of "\<lambda>_. 0" "[Ev (Key Enter)]" cooked] show ?thesis by (simp add: cooked_def)
qed

end
