(* ===== verification/Loop.thy ===== *)
theory Loop
  imports Game "HOL-Library.Stream"
begin

text \<open>
  The \<open>loop\<close> of \<open>run_app\<close> (\<open>src/src/main.rs\<close>, lines 86--147) as the source writes it:
  an unbounded loop over an infinite stream of inputs, defined with
  \<open>partial_function (option)\<close>, where \<open>None\<close> is a loop that never returns.  It is
  equivalent to the model \<open>run_app\<close> of theory \<open>Game\<close> over finite prefixes of the stream:
  the loop returns \<open>res\<close> exactly when some prefix of the inputs brings \<open>run_app\<close> to the
  finished result \<open>res\<close>.  Every input stream that contains Esc makes the loop return,
  from any state; a stream of ignored events only (non-key events and unmapped keys)
  keeps it waiting for ever.
\<close>

partial_function (option) run_loop ::
  "string option \<Rightarrow> (nat \<Rightarrow> nat) \<Rightarrow> app \<Rightarrow> io_input stream \<Rightarrow> run_result option" where
  "run_loop src rs a inputs =
     (case shd inputs of
        IoFail \<Rightarrow> Some (IoErr a)
      | Ev ev \<Rightarrow>
          (case handle_event src (rs 0) a ev of
             Inl e \<Rightarrow> Some (Panicked e)
           | Inr Exit \<Rightarrow> Some (Returned a)
           | Inr (Continue a') \<Rightarrow> run_loop src (\<lambda>k. rs (Suc k)) a' (stl inputs)))"

text \<open>A result of the finite model that the loop also returns: anything but waiting for input.\<close>

definition finished :: "run_result \<Rightarrow> bool" where
  "finished res \<longleftrightarrow> (case res of Blocked _ \<Rightarrow> False | _ \<Rightarrow> True)"

lemma handle_event_ignored:
  "handle_event src r a NonKey = Inr (Continue a)"
  "handle_event src r a (Key OtherKey) = Inr (Continue a)"
  by (simp_all add: dispatch_defs split: gamestatus.splits)

lemma run_loop_ignored_returns:
  assumes "run_loop src rs a s = Some res"
  shows "\<not> sset s \<subseteq> {Ev NonKey, Ev (Key OtherKey)}"
proof (rule run_loop.raw_induct [where P = "\<lambda>src rs a s res. \<not> sset s \<subseteq> {Ev NonKey, Ev (Key OtherKey)}", OF _ assms])
  fix f src rs a s res
  assume IH: "\<And>src rs a s res. f src rs a s = Some res \<Longrightarrow> \<not> sset s \<subseteq> {Ev NonKey, Ev (Key OtherKey)}"
    and eq: "(case shd s of IoFail \<Rightarrow> Some (IoErr a)
      | Ev ev \<Rightarrow> (case handle_event src (rs 0) a ev of
             Inl e \<Rightarrow> Some (Panicked e)
           | Inr Exit \<Rightarrow> Some (Returned a)
           | Inr (Continue a') \<Rightarrow> f src (\<lambda>k. rs (Suc k)) a' (stl s))) = Some res"
  show "\<not> sset s \<subseteq> {Ev NonKey, Ev (Key OtherKey)}"
  proof
    assume ign: "sset s \<subseteq> {Ev NonKey, Ev (Key OtherKey)}"
    then have "shd s = Ev NonKey \<or> shd s = Ev (Key OtherKey)" by (metis insertE shd_sset singletonD subsetD)
    then obtain ev where ev: "shd s = Ev ev" "handle_event src (rs 0) a ev = Inr (Continue a)"
      using handle_event_ignored by blast
    with eq have "f src (\<lambda>k. rs (Suc k)) a (stl s) = Some res" by simp
    moreover have "sset (stl s) \<subseteq> {Ev NonKey, Ev (Key OtherKey)}"
      using ign by (meson order_trans stl_sset subsetI)
    ultimately show False using IH by blast
  qed
qed

lemma run_app_stake_Suc:
  "run_app src rs a (stake (Suc n) s) =
     (case shd s of
        IoFail \<Rightarrow> IoErr a
      | Ev ev \<Rightarrow>
          (case handle_event src (rs 0) a ev of
             Inl e \<Rightarrow> Panicked e
           | Inr Exit \<Rightarrow> Returned a
           | Inr (Continue a') \<Rightarrow> run_app src (\<lambda>k. rs (Suc k)) a' (stake n (stl s))))"
  by (cases "shd s") simp_all

lemma run_app_prefix_loop:
  "run_app src rs a (stake n s) = res \<Longrightarrow> finished res \<Longrightarrow> run_loop src rs a s = Some res"
proof (induction n arbitrary: rs a s)
  case 0
  then show ?case by (auto simp: finished_def)
next
  case (Suc n)
  show ?case
  proof (cases "shd s")
    case IoFail
    with Suc.prems show ?thesis by (simp add: run_loop.simps)
  next
    case (Ev ev)
    with Suc show ?thesis
      by (auto simp: run_loop.simps split: sum.splits flow.splits)
  qed
qed

lemma run_loop_run_app:
  assumes "run_loop src rs a s = Some res"
  shows "\<exists>n. run_app src rs a (stake n s) = res \<and> finished res"
proof (rule run_loop.raw_induct [where P = "\<lambda>src rs a s res. \<exists>n. run_app src rs a (stake n s) = res \<and> finished res", OF _ assms])
  fix f src rs a s res
  assume IH: "\<And>src rs a s res. f src rs a s = Some res \<Longrightarrow>
      \<exists>n. run_app src rs a (stake n s) = res \<and> finished res"
    and eq: "(case shd s of IoFail \<Rightarrow> Some (IoErr a)
      | Ev ev \<Rightarrow> (case handle_event src (rs 0) a ev of
             Inl e \<Rightarrow> Some (Panicked e)
           | Inr Exit \<Rightarrow> Some (Returned a)
           | Inr (Continue a') \<Rightarrow> f src (\<lambda>k. rs (Suc k)) a' (stl s))) = Some res"
  show "\<exists>n. run_app src rs a (stake n s) = res \<and> finished res"
  proof (cases "shd s")
    case IoFail
    with eq have "run_app src rs a (stake 1 s) = res" "finished res"
      by (auto simp: run_app_stake_Suc finished_def)
    then show ?thesis by blast
  next
    case (Ev ev)
    show ?thesis
    proof (cases "handle_event src (rs 0) a ev")
      case (Inl e)
      with eq Ev have "run_app src rs a (stake 1 s) = res" "finished res"
        by (auto simp: run_app_stake_Suc finished_def)
      then show ?thesis by blast
    next
      case (Inr fl)
      show ?thesis
      proof (cases fl)
        case Exit
        with eq Ev Inr have "run_app src rs a (stake 1 s) = res" "finished res"
          by (auto simp: run_app_stake_Suc finished_def)
        then show ?thesis by blast
      next
        case (Continue a')
        with eq Ev Inr have "f src (\<lambda>k. rs (Suc k)) a' (stl s) = Some res" by simp
        then obtain n where "run_app src (\<lambda>k. rs (Suc k)) a' (stake n (stl s)) = res" "finished res"
          using IH by blast
        with Ev Inr Continue have "run_app src rs a (stake (Suc n) s) = res"
          by (simp add: run_app_stake_Suc)
        with \<open>finished res\<close> show ?thesis by blast
      qed
    qed
  qed
qed

lemma run_loop_esc_index:
  "s !! i = Ev (Key Esc) \<Longrightarrow> \<exists>res. run_loop src rs a s = Some res"
proof (induction i arbitrary: rs a s)
  case 0
  then show ?case by (simp add: run_loop.simps handle_event_Esc)
next
  case (Suc i)
  show ?case
  proof (cases "shd s")
    case IoFail
    then show ?thesis by (simp add: run_loop.simps)
  next
    case (Ev ev)
    with Suc show ?thesis
      by (auto simp: run_loop.simps split: sum.splits flow.splits)
  qed
qed

section \<open>The loop and the finite model\<close>

text \<open>Adequacy of the finite model: the loop returns \<open>res\<close> exactly when a finite prefix of its inputs drives the
  finite model \<open>run_app\<close> to the finished result \<open>res\<close>, so every theorem about
  \<open>run_app\<close> on a prefix is a theorem about the program's loop.\<close>

theorem run_loop_iff_run_app:
  "run_loop src rs a s = Some res \<longleftrightarrow> (\<exists>n. run_app src rs a (stake n s) = res \<and> finished res)"
  using run_loop_run_app run_app_prefix_loop by blast

text \<open>C12: the loop terminates on every input stream that contains Esc, from any state and
  for any draws: each earlier input either ends the loop or continues it, and Esc exits in
  every game status.\<close>

theorem run_loop_exits_on_esc:
  assumes "Ev (Key Esc) \<in> sset s"
  shows "\<exists>res. run_loop src rs a s = Some res"
proof -
  from assms obtain i where "s !! i = Ev (Key Esc)" by (auto simp: sset_range)
  then show ?thesis by (rule run_loop_esc_index)
qed

text \<open>C13: on a stream of ignored events only (non-key events and unmapped keys) the loop
  never returns: it keeps the state and waits for the next event for ever.\<close>

theorem run_loop_ignored_diverges:
  assumes "sset s \<subseteq> {Ev NonKey, Ev (Key OtherKey)}"
  shows "run_loop src rs a s = None"
  using assms run_loop_ignored_returns by fastforce

theorem run_loop_exits_on_esc_witness:
  "\<exists>res. run_loop None (\<lambda>_. 0) (fresh_app ''crane'')
     (Ev (Key OtherKey) ## Ev (Key Esc) ## sconst (Ev NonKey)) = Some res"
proof -
  have "Ev (Key Esc) \<in> sset (Ev (Key OtherKey) ## Ev (Key Esc) ## sconst (Ev NonKey))" by simp
  from run_loop_exits_on_esc [OF this] show ?thesis .
qed

theorem run_loop_ignored_diverges_witness:
  "run_loop None (\<lambda>_. 0) (fresh_app ''crane'') (sconst (Ev NonKey)) = None"
proof -
  have "sset (sconst (Ev NonKey)) \<subseteq> {Ev NonKey, Ev (Key OtherKey)}" by simp
  from run_loop_ignored_diverges [OF this] show ?thesis .
qed

end
