(* ===== verification/Outcome.thy ===== *)
theory Outcome
  imports Reach Runs
begin

text \<open>
  How a game ends.  The status becomes Won or Lost only in the Enter arm of \<open>run_app\<close>
  (\<open>src/src/main.rs\<close>, lines 109--134), and a finished game changes only by a restart.
  \<open>outcome_inv\<close> says what a finished state shows: Won with the cursor after a full row
  that equals the secret ignoring case, Lost at the end of the sixth row with a wrong
  guess.  It holds in every reachable state (rule induction, one lemma for Enter).
\<close>

definition outcome_inv :: "app \<Rightarrow> bool" where
  "outcome_inv a \<longleftrightarrow>
     (app.status a = Won \<longrightarrow> cur_col a = 5 \<and>
        str_to_lowercase (row_string (characters a ! cur_row a)) = str_to_lowercase (word a)) \<and>
     (app.status a = Lost \<longrightarrow> position a = (5, 5) \<and>
        str_to_lowercase (row_string (characters a ! cur_row a)) \<noteq> str_to_lowercase (word a))"

lemma status_key_ops:
  "key_backspace a = Inr a' \<Longrightarrow> app.status a' = app.status a"
  "key_char c a = Inr a' \<Longrightarrow> app.status a' = app.status a"
  by (auto simp: key_defs bind_res_def split: if_splits sum.splits)

lemma outcome_inv_ongoing: "app.status a = Ongoing \<Longrightarrow> outcome_inv a"
  by (simp add: outcome_inv_def)

lemma outcome_key_enter:
  assumes "wf_app a" "app.status a = Ongoing" "key_enter a = Inr a'"
  shows "outcome_inv a'"
proof (cases "commits a")
  case True
  have "5 \<le> length (word a)"
    using True assms(1,3) by (cases "5 \<le> length (word a)") (simp_all add: key_enter_commit_short)
  with True assms(1,3) have "app.status a' = Ongoing"
    using assms(2) by (auto simp: key_enter_commit)
  then show ?thesis by (rule outcome_inv_ongoing)
next
  case False
  note dims = wf_app_dims [OF assms(1)]
  show ?thesis
  proof (cases "cur_col a < 5")
    case True
    with False assms show ?thesis by (auto simp: key_enter_no_commit outcome_inv_ongoing)
  next
    case col: False
    then have c5: "cur_col a = 5" using dims(4) by linarith
    show ?thesis
    proof (cases "str_to_lowercase (row_string (characters a ! cur_row a)) = str_to_lowercase (word a)")
      case True
      with False col c5 assms show ?thesis by (auto simp: key_enter_no_commit outcome_inv_def)
    next
      case ne: False
      with False col have "cur_row a = 5" using dims(3) by (auto simp: commits_def)
      with ne False col c5 assms show ?thesis
        by (auto simp: key_enter_no_commit outcome_inv_def prod_eq_iff)
    qed
  qed
qed

lemma outcome_handle_event:
  assumes "wf_app a" "outcome_inv a" "handle_event src r a ev = Inr (Continue a')"
  shows "outcome_inv a'"
  using assms
  by (auto simp: dispatch_defs continue_with_def bind_res_def app_default_def read_secret_def
      fresh_app_def outcome_inv_ongoing
      dest: status_key_ops outcome_key_enter
      split: event.splits keycode.splits gamestatus.splits sum.splits option.splits)

text \<open>C10: every reachable state that is Won shows on the cursor row a full guess equal to
  the secret ignoring case, and every reachable Lost state has its cursor at the end of
  the sixth row, which holds a full guess different from the secret: the game ends only
  the way the specification says.\<close>

theorem reachable_outcome_sound:
  assumes "reachable src a"
  shows "(app.status a = Won \<longrightarrow> cur_col a = 5 \<and>
            str_to_lowercase (row_string (characters a ! cur_row a)) = str_to_lowercase (word a)) \<and>
         (app.status a = Lost \<longrightarrow> position a = (5, 5) \<and>
            str_to_lowercase (row_string (characters a ! cur_row a)) \<noteq> str_to_lowercase (word a))"
  unfolding outcome_inv_def [symmetric] using assms
proof (induction rule: reachable.induct)
  case (start r a)
  then show ?case
    by (cases src) (auto simp: app_default_Some fresh_app_def outcome_inv_ongoing)
next
  case (step a r ev a')
  show ?case using outcome_handle_event [OF reachable_wf [OF step.hyps(1)] step.IH step.hyps(2)] .
qed

theorem reachable_outcome_sound_witness:
  "\<exists>a. reachable (Some ''crane'') a \<and> app.status a = Won \<and> cur_col a = 5 \<and>
     str_to_lowercase (row_string (characters a ! cur_row a)) = ''crane''"
proof -
  have h: "wf_app (fresh_app ''crane'')" "app.status (fresh_app ''crane'') = Ongoing"
    "cur_col (fresh_app ''crane'') = 0" "length ''crane'' = 5"
    "str_to_lowercase (map to_upper_first ''crane'') = str_to_lowercase (word (fresh_app ''crane''))"
    by (simp_all add: eval_simps)
  obtain a rs' where r: "run_app (Some ''crane'') (\<lambda>_. 0) (fresh_app ''crane'') (type_guess ''crane'' @ []) =
      run_app (Some ''crane'') rs' a []" and won: "app.status a = Won"
    and w: "word a = word (fresh_app ''crane'')"
    using run_right_guess [OF h, of "Some ''crane''" "\<lambda>_. 0" "[]"] by blast
  have r0: "reachable (Some ''crane'') (fresh_app ''crane'')"
    using app_default_crane by (rule reachable.start)
  have reach: "reachable (Some ''crane'') a"
    using r by (intro reachable_run_app [OF r0, of "\<lambda>_. 0" "type_guess ''crane''"]) simp
  from reachable_outcome_sound [OF reach] reach won w show ?thesis
    by (auto simp: eval_simps)
qed

end
