(* ===== verification/Layout.thy ===== *)
theory Layout
  imports Prelude
begin

text \<open>
  The screen areas \<open>fn ui\<close> (\<open>src/src/main.rs\<close>) computes from the frame size before
  handing them to tui's layout solver: the title area (lines 162--167) and the board
  area (lines 192--197).  Each coordinate is \<open>(n as f32 * c).round() as u16\<close> for a
  \<open>u16\<close> frame dimension \<open>n\<close> and a literal \<open>c\<close>, modelled with the IEEE-754 binary32
  semantics Rust uses: \<open>n as f32\<close> is exact (\<open>n < 2^24\<close>); the literal is the nearest
  binary32 value \<open>m * 2^-e\<close> (\<open>0.1 = 13421773 * 2^-27\<close>, \<open>0.2 = 13421773 * 2^-26\<close>,
  \<open>0.8 = 13421773 * 2^-24\<close>); the product \<open>n * m * 2^-e\<close> is rounded to 24 significant
  bits, to nearest with ties to even (\<open>f32_round\<close>, exponent range never reached);
  \<open>round\<close> rounds half away from zero; \<open>as u16\<close> saturates at 65535.  The theorems:
  for every frame size this equals the decimal rounding of \<open>n * c\<close> (so the binary32
  errors never matter), and the board area ends exactly at the bottom of the frame, starts
  right below the title and stays within the frame's width.
\<close>

fun bit_length :: "nat \<Rightarrow> nat" where
  "bit_length n = (if n = 0 then 0 else Suc (bit_length (n div 2)))"

definition round_shift_even :: "nat \<Rightarrow> nat \<Rightarrow> nat" where
  "round_shift_even s n =
     (let q = n div 2 ^ s; r = n mod 2 ^ s; h = 2 ^ s div 2 in
      (if h < r \<or> (0 < s \<and> r = h \<and> odd q) then Suc q else q) * 2 ^ s)"

definition f32_round :: "nat \<Rightarrow> nat" where
  "f32_round n = (let b = bit_length n in if b \<le> 24 then n else round_shift_even (b - 24) n)"

definition f32_0_1 :: "nat \<times> nat" where "f32_0_1 = (13421773, 27)"
definition f32_0_2 :: "nat \<times> nat" where "f32_0_2 = (13421773, 26)"
definition f32_0_8 :: "nat \<times> nat" where "f32_0_8 = (13421773, 24)"

definition scale_round :: "nat \<times> nat \<Rightarrow> nat \<Rightarrow> nat" where
  "scale_round c x = (case c of (m, e) \<Rightarrow> min 65535 ((f32_round (x * m) + 2 ^ (e - 1)) div 2 ^ e))"

record rect =
  rect_x :: nat
  rect_y :: nat
  rect_width :: nat
  rect_height :: nat

definition title_area :: "nat \<Rightarrow> nat \<Rightarrow> rect" where
  "title_area w h = \<lparr>rect_x = 0, rect_y = 0, rect_width = w, rect_height = scale_round f32_0_2 h\<rparr>"

definition board_area :: "nat \<Rightarrow> nat \<Rightarrow> rect" where
  "board_area w h =
     \<lparr>rect_x = scale_round f32_0_1 w, rect_y = scale_round f32_0_2 h,
      rect_width = scale_round f32_0_8 w, rect_height = scale_round f32_0_8 h\<rparr>"

declare bit_length.simps [simp del]

lemma bit_length_le: "n < 2 ^ k \<Longrightarrow> bit_length n \<le> k"
proof (induction k arbitrary: n)
  case 0
  then show ?case by (simp add: bit_length.simps)
next
  case (Suc k)
  show ?case
  proof (cases "n = 0")
    case True
    then show ?thesis by (simp add: bit_length.simps)
  next
    case False
    have "n div 2 < 2 ^ k" using Suc.prems by simp
    then have "bit_length (n div 2) \<le> k" by (rule Suc.IH)
    with False show ?thesis by (simp add: bit_length.simps [of n])
  qed
qed

lemma round_shift_even_err:
  assumes "0 < s"
  shows "round_shift_even s n \<le> n + 2 ^ (s - 1) \<and> n \<le> round_shift_even s n + 2 ^ (s - 1)"
proof -
  let ?q = "n div 2 ^ s" and ?r = "n mod 2 ^ s"
  have n: "n = ?q * 2 ^ s + ?r" by (rule div_mult_mod_eq [symmetric])
  have r: "?r < 2 ^ s" by simp
  have h: "2 ^ s div 2 = (2 :: nat) ^ (s - 1)" and hs: "2 ^ s = 2 * (2 :: nat) ^ (s - 1)"
    using assms by (cases s; simp)+
  show ?thesis
  proof (cases "2 ^ (s - 1) < ?r \<or> (?r = 2 ^ (s - 1) \<and> odd ?q)")
    case True
    then have "round_shift_even s n = ?q * 2 ^ s + 2 ^ s"
      using assms h by (auto simp: round_shift_even_def Let_def)
    moreover have "2 ^ (s - 1) \<le> ?r" using True by auto
    ultimately show ?thesis using r hs n by linarith
  next
    case False
    then have "round_shift_even s n = ?q * 2 ^ s"
      using assms h by (auto simp: round_shift_even_def Let_def)
    moreover have "?r \<le> 2 ^ (s - 1)" using False by auto
    ultimately show ?thesis using r hs n by linarith
  qed
qed

lemma f32_round_err:
  assumes "n < 2 ^ 40"
  shows "f32_round n \<le> n + 2 ^ 15 \<and> n \<le> f32_round n + 2 ^ 15"
proof (cases "bit_length n \<le> 24")
  case True
  then show ?thesis by (simp add: f32_round_def)
next
  case False
  let ?s = "bit_length n - 24"
  have "bit_length n \<le> 40" using assms by (rule bit_length_le)
  then have "2 ^ (?s - 1) \<le> (2 :: nat) ^ 15" by (intro power_increasing) auto
  moreover have "0 < ?s" using False by simp
  ultimately show ?thesis
    using round_shift_even_err [of ?s n] False by (simp add: f32_round_def Let_def)
qed

lemma f32_round_lower:
  assumes "n < 2 ^ 40" "(2 :: nat) ^ 16 dvd t" "t \<le> n"
  shows "t \<le> f32_round n"
proof (cases "bit_length n \<le> 24")
  case True
  with assms(3) show ?thesis by (simp add: f32_round_def)
next
  case False
  let ?s = "bit_length n - 24"
  have "bit_length n \<le> 40" using assms(1) by (rule bit_length_le)
  then have "(2 :: nat) ^ ?s dvd 2 ^ 16" by (intro le_imp_power_dvd) auto
  then have d: "2 ^ ?s dvd t" using assms(2) by (rule dvd_trans)
  have "t div 2 ^ ?s \<le> n div 2 ^ ?s" using assms(3) by (rule div_le_mono)
  then have "t \<le> n div 2 ^ ?s * 2 ^ ?s"
    using d by (metis dvd_div_mult_self mult_le_mono1)
  also have "\<dots> \<le> round_shift_even ?s n"
    by (simp add: round_shift_even_def Let_def)
  finally show ?thesis using False by (simp add: f32_round_def Let_def)
qed

lemma scale_round_window:
  assumes "f32_round (x * 13421773) + 2 ^ (e - 1) < 2 ^ e * Suc k"
    and "2 ^ e * k \<le> f32_round (x * 13421773) + 2 ^ (e - 1)" and "k \<le> 65535"
  shows "scale_round (13421773, e) x = k"
  using assms by (simp add: scale_round_def div_nat_eqI)

lemma scale_round_02: "x < 2 ^ 16 \<Longrightarrow> scale_round f32_0_2 x = (2 * x + 5) div 10"
proof -
  assume x: "x < 2 ^ 16"
  have "x * 13421773 < 2 ^ 40" using x by simp
  from f32_round_err [OF this]
  have err: "f32_round (x * 13421773) \<le> x * 13421773 + 32768"
    "x * 13421773 \<le> f32_round (x * 13421773) + 32768" by simp_all
  let ?k = "(2 * x + 5) div 10"
  have k: "10 * ?k + 1 \<le> 2 * x + 5" "2 * x + 5 \<le> 10 * ?k + 9" by presburger+
  show ?thesis unfolding f32_0_2_def
    by (rule scale_round_window) (use err k x in simp_all)
qed

lemma scale_round_08: "x < 2 ^ 16 \<Longrightarrow> scale_round f32_0_8 x = (8 * x + 5) div 10"
proof -
  assume x: "x < 2 ^ 16"
  have "x * 13421773 < 2 ^ 40" using x by simp
  from f32_round_err [OF this]
  have err: "f32_round (x * 13421773) \<le> x * 13421773 + 32768"
    "x * 13421773 \<le> f32_round (x * 13421773) + 32768" by simp_all
  let ?k = "(8 * x + 5) div 10"
  have k: "10 * ?k + 1 \<le> 8 * x + 5" "8 * x + 5 \<le> 10 * ?k + 9" by presburger+
  show ?thesis unfolding f32_0_8_def
    by (rule scale_round_window) (use err k x in simp_all)
qed

lemma scale_round_01: "x < 2 ^ 16 \<Longrightarrow> scale_round f32_0_1 x = (x + 5) div 10"
proof -
  assume x: "x < 2 ^ 16"
  have n: "x * 13421773 < 2 ^ 40" using x by simp
  from f32_round_err [OF this]
  have err: "f32_round (x * 13421773) \<le> x * 13421773 + 32768"
    "x * 13421773 \<le> f32_round (x * 13421773) + 32768" by simp_all
  let ?k = "(x + 5) div 10"
  have k: "10 * ?k \<le> x + 5" "x + 5 \<le> 10 * ?k + 9" by presburger+
  have low: "2 ^ 27 * ?k \<le> f32_round (x * 13421773) + 2 ^ 26"
  proof (cases "x + 5 = 10 * ?k")
    case True
    obtain j where j2: "?k = Suc j" using True by (cases ?k) auto
    with True have j: "x = 10 * j + 5" "?k = Suc j" by simp_all
    have "2 ^ 16 dvd (2 :: nat) ^ 26 * (2 * j + 1)" by (simp add: le_imp_power_dvd)
    moreover have "(2 :: nat) ^ 26 * (2 * j + 1) \<le> x * 13421773" using j(1) by simp
    ultimately have "(2 :: nat) ^ 26 * (2 * j + 1) \<le> f32_round (x * 13421773)"
      by (rule f32_round_lower [OF n])
    with j(2) show ?thesis by simp
  next
    case False
    with k err show ?thesis by simp
  qed
  show ?thesis unfolding f32_0_1_def
    by (rule scale_round_window) (use err k x low in simp_all)
qed

lemma fifths_split: "(2 * h + 5) div 10 + (8 * h + 5) div 10 = (h :: nat)"
proof -
  obtain q j where h: "h = 5 * q + j" "j < 5"
    by (metis div_mult_mod_eq mod_less_divisor zero_less_numeral add.commute mult.commute)
  have a: "2 * h + 5 = (2 * j + 5) + 10 * q" "8 * h + 5 = (8 * j + 5) + 10 * (4 * q)"
    using h(1) by simp_all
  have "j = 0 \<or> j = 1 \<or> j = 2 \<or> j = 3 \<or> j = 4" using h(2) by linarith
  then show ?thesis unfolding a using h(1) by auto
qed

lemma tenths_bound: "(w + 5) div 10 + (8 * w + 5) div 10 \<le> (w :: nat)"
proof -
  obtain q j where h: "w = 10 * q + j" "j < 10"
    by (metis div_mult_mod_eq mod_less_divisor zero_less_numeral add.commute mult.commute)
  have a: "w + 5 = (j + 5) + 10 * q" "8 * w + 5 = (8 * j + 5) + 10 * (8 * q)"
    using h(1) by simp_all
  have "j \<in> {0, 1, 2, 3, 4, 5, 6, 7, 8, 9}" using h(2) by (simp add: eval_nat_numeral less_Suc_eq)
  then show ?thesis unfolding a using h(1) by auto
qed

section \<open>The areas of the screen\<close>

text \<open>C18: for every frame size (two \<open>u16\<close>), the binary32 computation of the title and
  board areas gives exactly the decimal values rounded half up: \<open>n * 0.1\<close>, \<open>n * 0.2\<close>,
  \<open>n * 0.8\<close>, with no saturation of the \<open>u16\<close> casts.\<close>

theorem areas_decimal:
  assumes "w < 2 ^ 16" "h < 2 ^ 16"
  shows "board_area w h = \<lparr>rect_x = (w + 5) div 10, rect_y = (2 * h + 5) div 10,
            rect_width = (8 * w + 5) div 10, rect_height = (8 * h + 5) div 10\<rparr> \<and>
         title_area w h = \<lparr>rect_x = 0, rect_y = 0, rect_width = w, rect_height = (2 * h + 5) div 10\<rparr>"
  using assms by (simp add: board_area_def title_area_def scale_round_01 scale_round_02 scale_round_08)

theorem areas_decimal_witness:
  "board_area 80 24 = \<lparr>rect_x = 8, rect_y = 5, rect_width = 64, rect_height = 19\<rparr> \<and>
   title_area 80 24 = \<lparr>rect_x = 0, rect_y = 0, rect_width = 80, rect_height = 5\<rparr>"
proof -
  have h: "(80 :: nat) < 2 ^ 16" "(24 :: nat) < 2 ^ 16" by simp_all
  from areas_decimal [OF h] show ?thesis by simp
qed

text \<open>C19: for every frame size the board area starts right below the title area, ends
  exactly on the last line of the frame and does not extend past its right edge.\<close>

theorem board_area_in_frame:
  assumes "w < 2 ^ 16" "h < 2 ^ 16"
  shows "rect_y (board_area w h) = rect_height (title_area w h) \<and>
         rect_y (board_area w h) + rect_height (board_area w h) = h \<and>
         rect_x (board_area w h) + rect_width (board_area w h) \<le> w"
proof -
  show ?thesis
    using fifths_split [of h] tenths_bound [of w]
    assms by (simp add: board_area_def title_area_def scale_round_01 scale_round_02 scale_round_08)
qed

theorem board_area_in_frame_witness:
  "rect_y (board_area 81 25) = rect_height (title_area 81 25) \<and>
   rect_y (board_area 81 25) + rect_height (board_area 81 25) = 25 \<and>
   rect_x (board_area 81 25) + rect_width (board_area 81 25) \<le> 81"
proof -
  have h: "(81 :: nat) < 2 ^ 16" "(25 :: nat) < 2 ^ 16" by simp_all
  show ?thesis by (rule board_area_in_frame [OF h])
qed

end
