(* ===== verification/Simulation.thy ===== *)
theory Simulation
  imports Reach Runs
begin

text \<open>
  The game machine of the specification (section 4.4) over the abstract games of
  theory \<open>Abstract\<close>: a session starts with a secret from the pool, every key moves an
  ongoing game by \<open>game_step\<close>, and a finished game (Won or Lost) can only be reset to a
  fresh game with a secret from the pool.  \<open>game_reach\<close> is the set of games this machine
  reaches.  The simulation theorem says that the program refines it: the abstraction
  of every state \<open>run_app\<close> can reach, restarts included, is a game the machine reaches
  with the pool read from \<open>words.txt\<close>.  Proof by rule induction on \<open>reachable\<close>, with one
  lemma that classifies a handled event as a stutter, an abstract step or a reset.
\<close>

definition fresh_game :: "string \<Rightarrow> game" where
  "fresh_game w = \<lparr>secret = w, guesses = [], typed = [], outcome = Ongoing\<rparr>"

inductive game_reach :: "string list \<Rightarrow> game \<Rightarrow> bool" for pool :: "string list" where
  start: "w \<in> set pool \<Longrightarrow> game_reach pool (fresh_game w)"
| play: "game_reach pool g \<Longrightarrow> outcome g = Ongoing \<Longrightarrow> game_reach pool (game_step g k)"
| reset: "game_reach pool g \<Longrightarrow> outcome g \<noteq> Ongoing \<Longrightarrow> w \<in> set pool \<Longrightarrow>
    game_reach pool (fresh_game w)"

lemma abs_fresh_app [simp]: "abs_game (fresh_app w) = fresh_game w"
  by (simp add: abs_game_def fresh_game_def)

lemma app_default_fresh_game:
  "app_default (Some s) r = Inr a \<Longrightarrow> \<exists>w \<in> set (words_of_file s). abs_game a = fresh_game w"
  by (auto simp: app_default_Some)

lemma abs_handle_event:
  assumes "wf_app a" "handle_event src r a ev = Inr (Continue a')"
  shows "abs_game a' = abs_game a \<or>
         (app.status a = Ongoing \<and> (\<exists>k. abs_game a' = game_step (abs_game a) k)) \<or>
         (app.status a \<noteq> Ongoing \<and> app_default src r = Inr a')"
proof (cases ev)
  case (Key k)
  show ?thesis
  proof (cases "app.status a = Ongoing")
    case True
    with assms(2) Key have "ongoing_key a k = Inr (Continue a')" by (simp add: dispatch_defs)
    with assms(1) True show ?thesis
      by (cases k) (auto simp: ongoing_key_def continue_with_def bind_res_def
          dest: abs_key_backspace abs_key_enter abs_key_char split: sum.splits)
  next
    case False
    with assms(2) Key have "finished_key src r a k = Inr (Continue a')"
      by (cases "app.status a") (simp_all add: dispatch_defs)
    with False show ?thesis
      by (cases k) (auto simp: finished_key_def continue_with_def bind_res_def split: sum.splits)
  qed
next
  case NonKey
  with assms(2) show ?thesis by (simp add: dispatch_defs)
qed

text \<open>C34: the program refines the specification's game machine: every state the program
  can reach from \<open>words.txt\<close>, over any events and draws and across restarts, abstracts to
  a game that the machine reaches with the pool of that file.\<close>

theorem reachable_refines_game:
  assumes "reachable (Some s) a"
  shows "game_reach (words_of_file s) (abs_game a)"
  using assms
proof (induction rule: reachable.induct)
  case (start r a)
  then obtain w where "w \<in> set (words_of_file s)" "abs_game a = fresh_game w"
    using app_default_fresh_game by blast
  then show ?case by (simp add: game_reach.start)
next
  case (step a r ev a')
  have wf: "wf_app a" using step.hyps(1) by (rule reachable_wf)
  from abs_handle_event [OF wf step.hyps(2)] show ?case
  proof (elim disjE conjE exE)
    assume "abs_game a' = abs_game a"
    with step.IH show ?thesis by simp
  next
    fix k assume "app.status a = Ongoing" "abs_game a' = game_step (abs_game a) k"
    with step.IH show ?thesis by (simp add: game_reach.play abs_game_def)
  next
    assume fin: "app.status a \<noteq> Ongoing" and d: "app_default (Some s) r = Inr a'"
    from app_default_fresh_game [OF d] obtain w where
      "w \<in> set (words_of_file s)" "abs_game a' = fresh_game w" by blast
    with fin step.IH show ?thesis by (simp add: game_reach.reset abs_game_def)
  qed
qed

theorem reachable_refines_game_witness:
  "\<exists>a. reachable (Some ''crane'') a \<and> cur_row a = 1 \<and> game_reach [''crane''] (abs_game a)"
proof -
  have h: "wf_app (fresh_app ''crane'')" "app.status (fresh_app ''crane'') = Ongoing"
    "cur_col (fresh_app ''crane'') = 0" "cur_row (fresh_app ''crane'') < 5"
    "wrong_guess (word (fresh_app ''crane'')) ''trace''" "5 \<le> length (word (fresh_app ''crane''))"
    by (simp_all add: wrong_guess_def eval_simps)
  obtain a rs' where r: "run_app (Some ''crane'') (\<lambda>_. 0) (fresh_app ''crane'') (type_guess ''trace'' @ []) =
      run_app (Some ''crane'') rs' a []"
    and row: "cur_row a = Suc (cur_row (fresh_app ''crane''))"
    using run_wrong_guess_commit [OF h, of "Some ''crane''" "\<lambda>_. 0" "[]"] by blast
  have r0: "reachable (Some ''crane'') (fresh_app ''crane'')"
    using app_default_crane by (rule reachable.start)
  have reach: "reachable (Some ''crane'') a"
    using r by (intro reachable_run_app [OF r0, of "\<lambda>_. 0" "type_guess ''trace''"]) simp
  have "words_of_file ''crane'' = [''crane'']"
    by (simp add: words_of_file_def split_newline_def trim_def is_whitespace_def)
  with reachable_refines_game [OF reach] reach row show ?thesis by auto
qed

end
