(* ===== verification/Program.thy ===== *)
theory Program
  imports Terminal Loop
begin

text \<open>
  The whole program: \<open>fn main\<close> (\<open>src/src/main.rs\<close>, lines 64--85) with the game loop as
  the source writes it, unbounded over an infinite stream of inputs (theory \<open>Loop\<close>),
  instead of the finite prefixes of \<open>Terminal.main_run\<close>.  \<open>None\<close> is a process that
  never exits.  The two models agree: the program exits with an outcome exactly when
  some prefix of its inputs makes the finite model exit with that outcome; and the
  program exits on every input stream that contains Esc, whichever terminal calls fail.
\<close>

definition main_loop :: "io_faults \<Rightarrow> string option \<Rightarrow> nat \<Rightarrow> (nat \<Rightarrow> nat) \<Rightarrow>
    io_input stream \<Rightarrow> terminal \<Rightarrow> main_outcome option" where
  "main_loop fl file r rs inputs t =
     (case run_steps fl setup_steps t of
        (t1, Some s) \<Rightarrow> Some (Exited (MainErr s) t1)
      | (t1, None) \<Rightarrow>
          (case app_default file r of
             Inl e \<Rightarrow> Some (Exited (MainPanic e) t1)
           | Inr a \<Rightarrow> map_option (main_finish fl t1) (run_loop file rs a inputs)))"

definition exited :: "main_outcome \<Rightarrow> bool" where
  "exited x \<longleftrightarrow> (case x of Exited _ _ \<Rightarrow> True | Running _ \<Rightarrow> False)"

lemma exited_simps [simp]: "exited (Exited x t) = True" "exited (Running t) = False"
  by (simp_all add: exited_def)

lemma main_finish_exited: "finished res \<Longrightarrow> exited (main_finish fl t1 res)"
  by (auto simp: main_finish_def finished_def exited_def split: run_result.splits prod.splits option.splits)

lemma main_finish_blocked: "exited (main_finish fl t1 res) \<Longrightarrow> finished res"
  by (auto simp: main_finish_def finished_def exited_def split: run_result.splits)

lemma run_loop_finished: "run_loop src rs a s = Some res \<Longrightarrow> finished res"
  using run_loop_run_app by blast

lemma main_loop_exited: "main_loop fl src r rs s t = Some y \<Longrightarrow> exited y"
  by (auto simp: main_loop_def intro: main_finish_exited dest: run_loop_finished
      split: prod.splits option.splits sum.splits)

section \<open>The program and the finite model\<close>

text \<open>Adequacy of the finite model of \<open>main\<close>: the program with its unbounded loop exits with outcome \<open>x\<close> (exit status and
  terminal mode) exactly when some finite prefix of its inputs makes the finite model
  \<open>main_run\<close> exit with \<open>x\<close>: the theorems about \<open>main_run\<close> are theorems about the
  program.\<close>

theorem main_loop_iff_prefix:
  "main_loop fl src r rs s t = Some x \<longleftrightarrow> (\<exists>n. main_run fl src r rs (stake n s) t = x \<and> exited x)"
proof (cases "run_steps fl setup_steps t")
  case (Pair t1 so)
  show ?thesis
  proof (cases "so = None \<and> (\<exists>a. app_default src r = Inr a)")
    case True
    then obtain a where so: "so = None" and d: "app_default src r = Inr a" by blast
    have "main_loop fl src r rs s t = map_option (main_finish fl t1) (run_loop src rs a s)"
      using Pair so d by (simp add: main_loop_def)
    moreover have "\<And>n. main_run fl src r rs (stake n s) t = main_finish fl t1 (run_app src rs a (stake n s))"
      using Pair so d by (simp add: main_run_def)
    moreover have "run_loop src rs a s = Some res \<longleftrightarrow> (\<exists>n. run_app src rs a (stake n s) = res \<and> finished res)"
      for res using run_loop_run_app run_app_prefix_loop by blast
    ultimately show ?thesis
      by (auto dest: main_finish_blocked intro: main_finish_exited)
  next
    case False
    then have "main_loop fl src r rs s t = Some (main_run fl src r rs (stake 0 s) t) \<and>
        (\<forall>n. main_run fl src r rs (stake n s) t = main_run fl src r rs (stake 0 s) t) \<and>
        exited (main_run fl src r rs (stake 0 s) t)"
      using Pair by (auto simp: main_loop_def main_run_def exited_def split: option.splits sum.splits)
    then show ?thesis by auto
  qed
qed

text \<open>C35: the program exits on every input stream that contains Esc, whichever terminal
  calls fail, whatever \<open>words.txt\<close> holds and whatever happens before the Esc.\<close>

theorem main_exits_on_esc:
  assumes "Ev (Key Esc) \<in> sset s"
  shows "\<exists>x t'. main_loop fl src r rs s t = Some (Exited x t')"
proof -
  from assms obtain i where i: "s !! i = Ev (Key Esc)" by (auto simp: sset_range)
  have "\<exists>res. run_loop src' rs a s = Some res" for src' a by (rule run_loop_esc_index [OF i])
  then have "\<exists>y. main_loop fl src r rs s t = Some y"
    by (auto simp: main_loop_def split: prod.splits option.splits sum.splits)
  then obtain y where y: "main_loop fl src r rs s t = Some y" by blast
  then have "exited y" by (rule main_loop_exited)
  with y show ?thesis by (cases y) (auto simp: exited_def)
qed

theorem main_exits_on_esc_witness:
  "\<exists>x t'. main_loop (\<lambda>s. s = LeaveAltScreen) None 0 (\<lambda>_. 0)
     (Ev (Key (Char_key CHR ''a'')) ## Ev (Key Esc) ## sconst IoFail) cooked = Some (Exited x t')"
proof -
  have "Ev (Key Esc) \<in> sset (Ev (Key (Char_key CHR ''a'')) ## Ev (Key Esc) ## sconst IoFail)" by simp
  from main_exits_on_esc [OF this] show ?thesis .
qed

end
