(* ===== verification/Spec2Isabelle.thy ===== *)
theory Spec2Isabelle
  imports Runs View Terminal Loop Outcome Layout Simulation Program
begin

text \<open>
  A verification development for fimshdle, a terminal word-guessing game (one source
  file, \<open>src/src/main.rs\<close>).  The program keeps one \<open>App\<close> value: a 6 by 5 board of
  cells (\<open>Character\<close>: a letter and a \<open>CharacterStatus\<close>), the cursor
  \<open>position: [usize; 2]\<close> (row, column), the \<open>Gamestatus\<close> (Ongoing, Won, Lost), the
  secret \<open>word\<close> and a \<open>message\<close>.  \<open>App::default\<close> reads \<open>words.txt\<close>, splits and trims
  it and draws the secret at random; \<open>run_app\<close> loops forever: draw the screen
  (\<open>ui\<close>), read one terminal event, update the \<open>App\<close> by a \<open>match\<close> on the status and the
  key; \<open>fn value\<close> colours one cell of a submitted row; \<open>main\<close> sets the terminal up,
  runs the loop and restores the terminal.

  Theories, leaves first:
  \<^item> \<open>Prelude\<close>: run-time errors as values (\<open>rust_error\<close>, \<open>'a result\<close>, \<open>bind_res\<close>),
    bounds-checked indexing (\<open>nth_checked\<close>, \<open>nth2_checked\<close>, \<open>update2_checked\<close>),
    the rectangular-grid predicate, and Rust's \<open>char\<close>/\<open>str\<close> calls the program makes
    (\<open>to_lower_char\<close>, \<open>to_upper_first\<close>, \<open>str_to_lowercase\<close>, \<open>trim\<close>,
    \<open>is_whitespace\<close>) on the characters U+0000..U+00FF that HOL's \<open>char\<close> represents.
  \<^item> \<open>Board\<close>: the enums and structs (\<open>character_status\<close>, \<open>gamestatus\<close>,
    record \<open>character\<close>, record \<open>app\<close>), the blank board, \<open>row_string\<close>.
  \<^item> \<open>Compare\<close>: \<open>value_status\<close> (\<open>fn value\<close>), \<open>eval_guess\<close> (its result on a row) and the
    case-insensitive comparison of the specification (\<open>spec_value\<close>).
  \<^item> \<open>Words\<close>: \<open>words_of_file\<close>, \<open>select_word\<close>, \<open>read_secret\<close> (the secret-drawing
    block of \<open>App::default\<close>) and the newline-joined file format.
  \<^item> \<open>Game\<close>: \<open>app_default\<close>, the arms of the key \<open>match\<close> (\<open>key_backspace\<close>,
    \<open>key_enter\<close> with its colouring loop \<open>commit_row\<close>, \<open>key_char\<close>, \<open>ongoing_key\<close>,
    \<open>finished_key\<close>), \<open>handle_key\<close>, \<open>handle_event\<close> and the loop \<open>run_app\<close> over a finite
    list of inputs; the invariant \<open>wf_app\<close> and the properties of each key.
  \<^item> \<open>Abstract\<close>: the game of the specification as a record (\<open>game\<close>: secret, committed
    guesses, typed letters, outcome) with its step \<open>game_step\<close>, and the abstraction
    \<open>abs_game\<close> of an \<open>app\<close>; the refinement theorem says that every key the handler accepts
    is a step of the abstract game (functional refinement
    \<open>abs_game (handle_key ..) = game_step (abs_game a) k\<close>).
  \<^item> \<open>Reach\<close>: the reachable states (inductive \<open>reachable\<close>: \<open>App::default\<close> closed
    under \<open>handle_event\<close> for every draw) and the board discipline \<open>board_inv\<close>, proved by
    rule induction from one preservation lemma per key; the secret always comes from the
    pool, and no cell ever holds a lower-case letter (\<open>lower_free\<close>).
  \<^item> \<open>Runs\<close>: whole runs of \<open>run_app\<close> over typed guesses (\<open>type_guess\<close>): six wrong
    guesses lose, typing the secret wins, and a secret shorter than 5 characters makes the
    first wrong guess panic.
  \<^item> \<open>Outcome\<close>: how a game ends; \<open>outcome_inv\<close> (Won only after a full guess equal to
    the secret ignoring case, Lost only at the end of the sixth row after a wrong one)
    holds in every reachable state.
  \<^item> \<open>View\<close>: what \<open>ui\<close> shows (title, the 6 by 5 grid of letters and colours, the Lost
    and Won texts), without the layout arithmetic, and the frames \<open>run_app\<close> draws
    (\<open>frames\<close>: one \<open>terminal.draw\<close> per iteration); the Won count as a 64-bit \<open>usize\<close>.
  \<^item> \<open>Terminal\<close>: \<open>main\<close> as the set-up calls, \<open>App::default\<close>, \<open>run_app\<close> and the
    restore calls (\<open>main_run\<close>), each crossterm call fallible through a fault parameter,
    \<open>?\<close> returning at the first failure, a panic unwinding without restoring; the exit
    paths and the terminal mode each leaves.
  \<^item> \<open>Loop\<close>: the \<open>loop\<close> of \<open>run_app\<close> as written, over an infinite input stream
    (\<open>partial_function (option) run_loop\<close>, \<open>None\<close> for a loop that never returns),
    equivalent to \<open>run_app\<close> on finite prefixes (the adequacy lemma
    \<open>run_loop_iff_run_app\<close>); it returns on every stream containing
    Esc and runs for ever on ignored events.
  \<^item> \<open>Layout\<close>: the two \<open>Rect\<close> literals of \<open>ui\<close> (title and board areas), each coordinate
    \<open>(n as f32 * c).round() as u16\<close> in exact IEEE-754 binary32 arithmetic (\<open>f32_round\<close>:
    24-bit significand, ties to even); they equal the decimal values rounded half up for
    every \<open>u16\<close> frame size, and the board area fits the frame below the title.
  \<^item> \<open>Simulation\<close>: the specification's game machine (\<open>game_reach\<close>: start from the pool,
    \<open>game_step\<close> while Ongoing, reset from Won or Lost) and the simulation theorem: every
    reachable program state abstracts to a game the machine reaches.
  \<^item> \<open>Program\<close>: \<open>main\<close> with the unbounded loop (\<open>main_loop\<close>), equivalent to \<open>main_run\<close>
    on finite prefixes of the inputs (the adequacy lemma \<open>main_loop_iff_prefix\<close>); the program exits on every stream containing Esc.

  Properties, in order of importance: the key handler keeps the board well formed
  (\<open>Game\<close>), refines the abstract game (\<open>Abstract\<close>), keeps the colouring discipline in
  every reachable state (\<open>Reach\<close>), and panics exactly on Enter with a secret shorter than
  5 characters or on a restart with an unreadable \<open>words.txt\<close>; Enter wins, commits or
  loses as the specification says, six wrong guesses lose (\<open>Runs\<close>); the secret always
  comes from the pool and the game ends only as the specification says (\<open>Outcome\<close>);
  the Won screen counts the attempts; the loop returns on Esc and waits for ever on
  ignored events (\<open>Loop\<close>); typing the secret leaves the Won screen drawn, its count is
  bounded, the grid shows Green, Yellow and Red exactly as \<open>fn value\<close> rules on the
  committed rows and White elsewhere, and never yellow for a lower-case secret
  (\<open>View\<close>); the screen areas are exact and fit the frame (\<open>Layout\<close>); the program refines the specification's machine
  (\<open>Simulation\<close>) and exits on Esc (\<open>Program\<close>); main's
  exit paths (\<open>Terminal\<close>); the comparison's case sensitivity against the specification
  (\<open>Compare\<close>); restarting; the word pool and its file format (\<open>Words\<close>); and, in this
  theory, the panic a file with a trailing newline causes, which spans the word pool,
  \<open>App::default\<close> and the game loop.

  Bounds and inputs: the board is the fixed 6 by 5 array of the source, so the grid
  predicate fixes both dimensions and the cursor stays within row 5 and column 5 (the
  range checks of Rust's indexing are modelled, not assumed).  \<open>run_app\<close> loops forever in
  the source; it is modelled by structural recursion over a finite list of inputs, a run
  that uses up its inputs being still in progress (\<open>Blocked\<close>, \<open>Running\<close>), so no fuel is
  needed and every statement about a run is about a finite prefix of the program's
  behaviour.  The random index of \<open>gen_range(0..len)\<close> is an arbitrary \<open>nat\<close> reduced into
  range, and every index is reachable; the draws of later restarts form a sequence
  \<open>nat \<Rightarrow> nat\<close>.  The unbounded loop itself is the \<open>partial_function\<close> of \<open>Loop\<close>, so the statements on
  finite prefixes carry over to it (\<open>run_loop_iff_run_app\<close>), and its termination is a
  theorem about \<open>Some\<close>, its divergence one about \<open>None\<close>.  \<open>usize\<close> values are \<open>nat\<close>
  bounded by the invariant; where the code adds to one that is printed (the Won count)
  the 64-bit word is shown not to wrap.

  Not modelled: the terminal libraries themselves (crossterm's event decoding, which is
  the input datatype \<open>event\<close>; tui's widgets, the constraint solver of \<open>Layout::split\<close>
  that divides the areas of \<open>Layout\<close> into the 6 rows and 5 cells, and the cursor hiding
  of \<open>Terminal::draw\<close>); Unicode case mapping beyond U+00FF (HOL's \<open>char\<close> holds 256
  characters); the failure of writing a command after a part of it was sent (a failing
  crossterm call is taken to leave the terminal unchanged).
\<close>

text \<open>C33: a \<open>words.txt\<close> that ends with a newline (as editors write it) adds the empty
  word to the pool; the draw that picks it starts a game whose secret is empty, and the
  first full guess then makes the program panic instead of colouring the row (the
  colouring loop indexes \<open>word.chars()\<close> at 0).\<close>

theorem trailing_newline_secret_panics:
  assumes "ws \<noteq> []" and "\<forall>w \<in> set ws. newline \<notin> set w \<and> trim w = w"
    and "wrong_guess [] g"
  shows "app_default (Some (join_newline ws @ [newline])) (length ws) = Inr (fresh_app []) \<and>
         run_app f rs (fresh_app []) (type_guess g) = Panicked IndexOutOfBounds"
proof
  have "join_newline ws @ [newline] = join_newline (ws @ [[]])"
    using assms(1) by (simp add: join_newline_snoc_empty)
  moreover have "split_newline (join_newline (ws @ [[]])) = ws @ [[]]"
    using assms(1,2) by (intro split_newline_join) auto
  moreover have "map trim ws = ws" using assms(2) by (induction ws) auto
  ultimately have "words_of_file (join_newline ws @ [newline]) = ws @ [[]]"
    by (simp add: words_of_file_def trim_def)
  then show "app_default (Some (join_newline ws @ [newline])) (length ws) = Inr (fresh_app [])"
    by (simp add: app_default_Some)
next
  show "run_app f rs (fresh_app []) (type_guess g) = Panicked IndexOutOfBounds"
    using run_short_secret [of "fresh_app []" g f rs "[]"] assms(3) by simp
qed

theorem trailing_newline_secret_panics_witness:
  "app_default (Some (''crane'' @ [newline])) 1 = Inr (fresh_app []) \<and>
   run_app None (\<lambda>_. 0) (fresh_app []) (type_guess ''trace'') = Panicked IndexOutOfBounds"
proof -
  have h: "[''crane''] \<noteq> []" "\<forall>w \<in> set [''crane'']. newline \<notin> set w \<and> trim w = w"
    "wrong_guess [] ''trace''"
    by (simp_all add: trim_def is_whitespace_def wrong_guess_def)
  from trailing_newline_secret_panics [OF h, of None "\<lambda>_. 0"] show ?thesis by simp
qed

end
